theory Spec2Isabelle
  imports Complex_Main "HOL-Library.Word" "HOL-Library.Log_Nat"
begin

section \<open>Health sensor data analysis: the data model\<close>

text \<open>
  The script \<^verbatim>\<open>analyze_health_data.py\<close> loads a CSV file into a NumPy structured array,
  computes three column means and three threshold counts, renders a text report and
  writes it to a file. The structured dtype of \<^verbatim>\<open>load_data\<close> has eight fields; the
  \<^verbatim>\<open>i4\<close> fields are 32-bit two's complement integers (read with \<open>sint\<close>), the
  \<^verbatim>\<open>U10\<close>/\<^verbatim>\<open>U20\<close> fields are strings of at most 10 and 20 characters, and the
  \<^verbatim>\<open>f4\<close> field is a single-precision float.
\<close>

datatype error =
    FileNotFoundError
  | IsADirectoryError
  | NotADirectoryError
  | FileExistsError
  | ValueError
  | OverflowError
  | TypeError
  | KeyError

text \<open>
  A floating-point value: a finite rational (always one the format can represent), an
  infinity (\<open>Inf True\<close> is the negative one) or not-a-number. The sign of a zero is
  not kept.
\<close>

datatype pyfloat = Finite rat | Inf bool | NaN

type_synonym i4 = "32 word"

record reading =
  patient_id :: string
  timestamp :: string
  heart_rate :: i4
  blood_pressure_systolic :: i4
  blood_pressure_diastolic :: i4
  temperature :: pyfloat
  glucose_level :: i4
  sensor_id :: string

text \<open>
  \<^verbatim>\<open>np.genfromtxt\<close> returns a one-dimensional array of rows, except that it squeezes
  an array of exactly one row to a zero-dimensional array (its \<^verbatim>\<open>ndmin\<close> is 0).
  Field access \<^verbatim>\<open>data['heart_rate']\<close> and the reductions \<^verbatim>\<open>mean\<close> and
  \<^verbatim>\<open>sum\<close> work on both; \<^verbatim>\<open>len\<close> raises \<^verbatim>\<open>TypeError\<close> on the
  zero-dimensional one.
\<close>

datatype ndarray = Arr0 reading | Arr1 "reading list"

fun elems :: "ndarray \<Rightarrow> reading list" where
  "elems (Arr0 r) = [r]"
| "elems (Arr1 rs) = rs"

definition column :: "(reading \<Rightarrow> 'a) \<Rightarrow> ndarray \<Rightarrow> 'a list" where
  "column field data = map field (elems data)"

fun np_len :: "ndarray \<Rightarrow> error + int" where
  "np_len (Arr0 r) = Inl TypeError"
| "np_len (Arr1 rs) = Inr (int (length rs))"

section \<open>Threshold counts\<close>

text \<open>
  \<^verbatim>\<open>(data['heart_rate'] > 90).sum()\<close>: the comparison yields one boolean per row, and
  the sum of a boolean array adds 1 for every \<^verbatim>\<open>True\<close>. The result is converted to a
  Python integer.
\<close>

definition gt_scalar :: "i4 list \<Rightarrow> int \<Rightarrow> bool list" where
  "gt_scalar xs c = map (\<lambda>x. c < sint x) xs"

definition bool_sum :: "bool list \<Rightarrow> int" where
  "bool_sum bs = sum_list (map (\<lambda>b. if b then 1 else 0) bs)"

definition find_abnormal_readings :: "ndarray \<Rightarrow> (string \<rightharpoonup> int)" where
  "find_abnormal_readings data =
     (let high_hr_count = bool_sum (gt_scalar (column heart_rate data) 90);
          high_bp_count = bool_sum (gt_scalar (column blood_pressure_systolic data) 130);
          high_glucose_count = bool_sum (gt_scalar (column glucose_level data) 110)
      in [''high_heart_rate'' \<mapsto> high_hr_count,
          ''high_blood_pressure'' \<mapsto> high_bp_count,
          ''high_glucose'' \<mapsto> high_glucose_count])"

text \<open>A sample row, with a temperature of 36.6 as single precision stores it.\<close>

definition example_row :: "i4 \<Rightarrow> i4 \<Rightarrow> i4 \<Rightarrow> reading" where
  "example_row hr bp gl =
     \<lparr>patient_id = ''P001'', timestamp = ''2024-01-01'', heart_rate = hr,
      blood_pressure_systolic = bp, blood_pressure_diastolic = 80,
      temperature = Finite (4797235 / 131072), glucose_level = gl, sensor_id = ''S1''\<rparr>"

section \<open>Rendering the report\<close>

text \<open>\<^verbatim>\<open>str(n)\<close> for a Python integer: decimal digits, with a minus sign when negative.\<close>

definition digit_char :: "nat \<Rightarrow> char" where
  "digit_char d = ''0123456789'' ! d"

fun dec :: "nat \<Rightarrow> string" where
  "dec n = (if n < 10 then [digit_char n] else dec (n div 10) @ [digit_char (n mod 10)])"

declare dec.simps [simp del]

definition py_str_int :: "int \<Rightarrow> string" where
  "py_str_int n = (if n < 0 then CHR ''-'' # dec (nat (- n)) else dec (nat n))"

text \<open>Reading decimal digits back: the digit characters and the number a digit string denotes.\<close>

definition digit_chars :: "char set" where
  "digit_chars = set ''0123456789''"

definition digit_of :: "char \<Rightarrow> int" where
  "digit_of c = of_char c - 48"

definition digits_value :: "string \<Rightarrow> int" where
  "digits_value ds = foldl (\<lambda>a c. 10 * a + digit_of c) 0 ds"

text \<open>Subscripting a dictionary raises \<^verbatim>\<open>KeyError\<close> when the key is absent.\<close>

definition getitem :: "('k \<rightharpoonup> 'v) \<Rightarrow> 'k \<Rightarrow> error + 'v" where
  "getitem d k = (case d k of None \<Rightarrow> Inl KeyError | Some v \<Rightarrow> Inr v)"

definition bindE :: "error + 'a \<Rightarrow> ('a \<Rightarrow> error + 'b) \<Rightarrow> error + 'b" where
  "bindE m f = (case m of Inl e \<Rightarrow> Inl e | Inr x \<Rightarrow> f x)"

text \<open>
  \<^verbatim>\<open>generate_report\<close> concatenates adjacent string literals and f-strings; the
  replacement fields are evaluated from left to right. The values of \<^verbatim>\<open>stats\<close> are
  strings, those of \<^verbatim>\<open>abnormal\<close> and \<^verbatim>\<open>total_readings\<close> are integers.
\<close>

definition generate_report :: "(string \<rightharpoonup> string) \<Rightarrow> (string \<rightharpoonup> int) \<Rightarrow> int \<Rightarrow> error + string" where
  "generate_report stats abnormal total_readings =
     bindE (getitem stats ''avg_heart_rate'') (\<lambda>avg_hr.
     bindE (getitem stats ''avg_systolic_bp'') (\<lambda>avg_bp.
     bindE (getitem stats ''avg_glucose'') (\<lambda>avg_gl.
     bindE (getitem abnormal ''high_heart_rate'') (\<lambda>high_hr.
     bindE (getitem abnormal ''high_blood_pressure'') (\<lambda>high_bp.
     bindE (getitem abnormal ''high_glucose'') (\<lambda>high_gl.
       Inr (''Health Sensor Data Analysis Report\<newline>'' @
            ''==================================\<newline>\<newline>'' @
            ''Dataset Summary:\<newline>'' @
            ''- Total readings: '' @ py_str_int total_readings @ ''\<newline>\<newline>'' @
            ''Average Measurements:\<newline>'' @
            ''- Heart Rate: '' @ avg_hr @ '' bpm\<newline>'' @
            ''- Systolic BP: '' @ avg_bp @ '' mmHg\<newline>'' @
            ''- Glucose Level: '' @ avg_gl @ '' mg/dL\<newline>\<newline>'' @
            ''Abnormal Readings:\<newline>'' @
            ''- High Heart Rate (>90): '' @ py_str_int high_hr @ '' readings\<newline>'' @
            ''- High Blood Pressure (>130): '' @ py_str_int high_bp @ '' readings\<newline>'' @
            ''- High Glucose (>110): '' @ py_str_int high_gl @ '' readings\<newline>'')))))))"

text \<open>
  The specification's template for the report, kept apart from the code: fourteen lines,
  each a sequence of literal text and named placeholders. Filling it replaces each
  placeholder by its value and ends every line with a newline.
\<close>

datatype piece = Lit string | Slot string

definition report_template :: "piece list list" where
  "report_template =
     [[Lit ''Health Sensor Data Analysis Report''],
      [Lit ''==================================''],
      [],
      [Lit ''Dataset Summary:''],
      [Lit ''- Total readings: '', Slot ''total''],
      [],
      [Lit ''Average Measurements:''],
      [Lit ''- Heart Rate: '', Slot ''avg_heart_rate'', Lit '' bpm''],
      [Lit ''- Systolic BP: '', Slot ''avg_systolic_bp'', Lit '' mmHg''],
      [Lit ''- Glucose Level: '', Slot ''avg_glucose'', Lit '' mg/dL''],
      [],
      [Lit ''Abnormal Readings:''],
      [Lit ''- High Heart Rate (>90): '', Slot ''high_heart_rate'', Lit '' readings''],
      [Lit ''- High Blood Pressure (>130): '', Slot ''high_blood_pressure'', Lit '' readings''],
      [Lit ''- High Glucose (>110): '', Slot ''high_glucose'', Lit '' readings'']]"

fun fill_piece :: "(string \<Rightarrow> string) \<Rightarrow> piece \<Rightarrow> string" where
  "fill_piece env (Lit s) = s"
| "fill_piece env (Slot name) = env name"

definition fill_template :: "(string \<Rightarrow> string) \<Rightarrow> piece list list \<Rightarrow> string" where
  "fill_template env ls = concat (map (\<lambda>l. concat (map (fill_piece env) l) @ ''\<newline>'') ls)"

text \<open>The values that a given triple of inputs puts into the placeholders.\<close>

definition report_values :: "(string \<rightharpoonup> string) \<Rightarrow> (string \<rightharpoonup> int) \<Rightarrow> int \<Rightarrow> string \<Rightarrow> string" where
  "report_values stats abnormal n name =
     (if name = ''total'' then py_str_int n
      else if name \<in> {''avg_heart_rate'', ''avg_systolic_bp'', ''avg_glucose''}
      then (case stats name of Some s \<Rightarrow> s | None \<Rightarrow> [])
      else (case abnormal name of Some k \<Rightarrow> py_str_int k | None \<Rightarrow> []))"

section \<open>Floating-point arithmetic\<close>

text \<open>
  IEEE 754 binary formats round to the nearest representable value, ties to the even
  significand. \<open>round_binary p emin q\<close> is the value of precision \<open>p\<close> nearest to the
  rational \<open>q\<close>, where \<open>emin\<close> is the exponent of the least subnormal; a result at or
  beyond the overflow threshold becomes an infinity. Double precision has \<open>p = 53\<close>,
  \<open>emin = -1074\<close>; single precision has \<open>p = 24\<close>, \<open>emin = -149\<close>.
\<close>

definition round_half_even :: "rat \<Rightarrow> int" where
  "round_half_even q =
     (let f = \<lfloor>q\<rfloor>; r = q - of_int f
      in if r < 1 / 2 then f else if 1 / 2 < r then f + 1 else if even f then f else f + 1)"

text \<open>\<open>ilog2 q\<close> is the exponent \<open>k\<close> with \<open>2 powi k \<le> \<bar>q\<bar> < 2 powi (k + 1)\<close>, for \<open>q \<noteq> 0\<close>.\<close>

definition ilog2 :: "rat \<Rightarrow> int" where
  "ilog2 q =
     (if 1 \<le> \<bar>q\<bar> then bitlen \<lfloor>\<bar>q\<bar>\<rfloor> - 1 else - bitlen (\<lceil>1 / \<bar>q\<bar>\<rceil> - 1))"

definition round_binary :: "nat \<Rightarrow> int \<Rightarrow> rat \<Rightarrow> rat" where
  "round_binary p emin q =
     (if q = 0 then 0
      else let e = max emin (ilog2 q - (int p - 1))
           in of_int (round_half_even (q / 2 powi e)) * 2 powi e)"

text \<open>\<open>overflow emax r\<close> says that the magnitude of \<open>r\<close> reaches \<open>2 powi emax\<close>.\<close>

definition overflow :: "int \<Rightarrow> rat \<Rightarrow> bool" where
  "overflow emax r \<longleftrightarrow> r \<noteq> 0 \<and> emax \<le> ilog2 r"

definition to_f64 :: "rat \<Rightarrow> pyfloat" where
  "to_f64 q = (let r = round_binary 53 (- 1074) q
               in if overflow 1024 r then Inf (r < 0) else Finite r)"

definition to_f32 :: "rat \<Rightarrow> pyfloat" where
  "to_f32 q = (let r = round_binary 24 (- 149) q
               in if overflow 128 r then Inf (r < 0) else Finite r)"

text \<open>
  Division of two doubles as NumPy's \<^verbatim>\<open>true_divide\<close> performs it: it never raises; a
  zero divisor gives an infinity, or not-a-number when the dividend is zero too.
\<close>

fun f64_div :: "pyfloat \<Rightarrow> pyfloat \<Rightarrow> pyfloat" where
  "f64_div (Finite a) (Finite b) =
     (if b = 0 then (if a = 0 then NaN else Inf (a < 0)) else to_f64 (a / b))"
| "f64_div (Finite a) (Inf s) = Finite 0"
| "f64_div (Inf s) (Finite b) = Inf (s \<noteq> (b < 0))"
| "f64_div (Inf s) (Inf t) = NaN"
| "f64_div NaN y = NaN"
| "f64_div x NaN = NaN"

section \<open>Column means\<close>

text \<open>
  \<^verbatim>\<open>data['heart_rate'].mean()\<close> on an integer column: NumPy adds the elements in a
  double-precision accumulator and divides the sum by the number of elements. For an
  empty column this is \<open>0.0 / 0\<close>, which is not-a-number (NumPy warns and does not
  raise). The sum of 32-bit integers is exact in double precision as long as it stays
  below \<open>2 ^ 53\<close>, which any column of up to \<open>2 ^ 22\<close> rows guarantees; the model
  rounds the exact sum once.
\<close>

definition np_mean :: "i4 list \<Rightarrow> pyfloat" where
  "np_mean xs = f64_div (to_f64 (of_int (sum_list (map sint xs)))) (to_f64 (of_nat (length xs)))"

text \<open>
  The format specification \<^verbatim>\<open>.1f\<close>: the decimal with one digit after the point that is
  nearest to the value, ties to even; a negative value keeps its sign even when it
  rounds to zero; not-a-number and the infinities are spelled out.
\<close>

definition format_1f :: "pyfloat \<Rightarrow> string" where
  "format_1f x =
     (case x of
        NaN \<Rightarrow> ''nan''
      | Inf s \<Rightarrow> (if s then ''-inf'' else ''inf'')
      | Finite q \<Rightarrow>
          (let t = nat (round_half_even (\<bar>q\<bar> * 10))
           in (if q < 0 then ''-'' else []) @ dec (t div 10) @ ''.'' @ [digit_char (t mod 10)]))"

definition calculate_statistics :: "ndarray \<Rightarrow> (string \<rightharpoonup> string)" where
  "calculate_statistics data =
     (let avg_heart_rate = np_mean (column heart_rate data);
          avg_systolic_bp = np_mean (column blood_pressure_systolic data);
          avg_glucose = np_mean (column glucose_level data)
      in [''avg_heart_rate'' \<mapsto> format_1f avg_heart_rate,
          ''avg_systolic_bp'' \<mapsto> format_1f avg_systolic_bp,
          ''avg_glucose'' \<mapsto> format_1f avg_glucose])"

text \<open>
  What it means for a string to present the arithmetic mean of a column with exactly one
  digit after the decimal point: an optional minus sign, a non-empty run of digits, a
  point and one digit, such that the number written differs from the exact mean by no
  more than the rounding to one decimal (\<open>0.05\<close>) plus the double-precision error of
  computing the mean (below \<open>2 ^ - 19\<close> for 32-bit values).
\<close>

definition shows_mean :: "string \<Rightarrow> int list \<Rightarrow> bool" where
  "shows_mean s xs \<longleftrightarrow>
     (\<exists>neg ip d.
        s = (if neg then ''-'' else []) @ ip @ ''.'' @ [d] \<and>
        ip \<noteq> [] \<and> set ip \<subseteq> digit_chars \<and> d \<in> digit_chars \<and>
        \<bar>(if neg then - 1 else 1) * (of_int (digits_value ip) + of_int (digit_of d) / 10)
           - of_int (sum_list xs) / of_nat (length xs)\<bar> \<le> (1 / 20 + 1 / 2 ^ 19 :: rat))"

text \<open>Sample inputs of the report: the aggregates of two rows, one of them abnormal.\<close>

definition example_stats :: "string \<rightharpoonup> string" where
  "example_stats = [''avg_heart_rate'' \<mapsto> ''87.5'', ''avg_systolic_bp'' \<mapsto> ''130.0'',
                    ''avg_glucose'' \<mapsto> ''100.0'']"

definition example_abnormal :: "string \<rightharpoonup> int" where
  "example_abnormal = [''high_heart_rate'' \<mapsto> 1, ''high_blood_pressure'' \<mapsto> 1,
                       ''high_glucose'' \<mapsto> 0]"

section \<open>The file system\<close>

text \<open>
  Files are reached through paths relative to the working directory (or absolute ones),
  and the model keeps one node per path: a directory or a regular file with its text.
  Paths are compared as written, after trailing slashes are dropped; the model does not
  identify two spellings of one path (\<^verbatim>\<open>a//b\<close>, \<^verbatim>\<open>a/./b\<close>), and it has no symbolic
  links, no permission bits and no disk limits. The working directory, denoted by the
  empty parent, and the root always exist. Text is what the text layer delivers on a
  POSIX system: written verbatim, read with universal newlines.
\<close>

datatype node = Dir | File string

type_synonym filesystem = "string \<rightharpoonup> node"

definition rstrip_sep :: "string \<Rightarrow> string" where
  "rstrip_sep p = rev (dropWhile (\<lambda>c. c = CHR ''/'') (rev p))"

text \<open>
  \<^verbatim>\<open>posixpath.split\<close>: the tail is everything after the last slash; the head is what
  precedes it, without its trailing slashes unless it consists of slashes only.
  \<^verbatim>\<open>posixpath.dirname\<close> is the head.
\<close>

definition path_split :: "string \<Rightarrow> string \<times> string" where
  "path_split p =
     (let tail = rev (takeWhile (\<lambda>c. c \<noteq> CHR ''/'') (rev p));
          head = rev (dropWhile (\<lambda>c. c \<noteq> CHR ''/'') (rev p))
      in (if head \<noteq> [] \<and> rstrip_sep head \<noteq> [] then rstrip_sep head else head, tail))"

definition dirname :: "string \<Rightarrow> string" where
  "dirname p = fst (path_split p)"

text \<open>
  \<open>stat\<close> resolves a path to its node. The empty path names nothing; a path of slashes
  is the root; a trailing slash demands a directory.
\<close>

definition stat :: "filesystem \<Rightarrow> string \<Rightarrow> node option" where
  "stat fs p =
     (if p = [] then None
      else if rstrip_sep p = [] then Some Dir
      else case fs (rstrip_sep p) of
             Some (File c) \<Rightarrow> (if rstrip_sep p = p then Some (File c) else None)
           | r \<Rightarrow> r)"

definition path_exists :: "filesystem \<Rightarrow> string \<Rightarrow> bool" where
  "path_exists fs p \<longleftrightarrow> stat fs p \<noteq> None"

definition isdir :: "filesystem \<Rightarrow> string \<Rightarrow> bool" where
  "isdir fs p \<longleftrightarrow> stat fs p = Some Dir"

text \<open>
  The proper prefixes of a path that end before a slash: the directories that the
  system walks through to reach the last component. All of them must be directories;
  \<open>parent_error\<close> is the error of the first one that is not, if any.
\<close>

fun prefixes_before_sep :: "string \<Rightarrow> string \<Rightarrow> string list" where
  "prefixes_before_sep acc [] = []"
| "prefixes_before_sep acc (c # cs) =
     (if c = CHR ''/'' \<and> acc \<noteq> [] then [rev acc] else []) @ prefixes_before_sep (c # acc) cs"

definition ancestors :: "string \<Rightarrow> string list" where
  "ancestors p = prefixes_before_sep [] (rstrip_sep p)"

fun first_error :: "filesystem \<Rightarrow> string list \<Rightarrow> error option" where
  "first_error fs [] = None"
| "first_error fs (q # qs) =
     (if rstrip_sep q = [] then first_error fs qs
      else case fs (rstrip_sep q) of
             Some Dir \<Rightarrow> first_error fs qs
           | Some (File c) \<Rightarrow> Some NotADirectoryError
           | None \<Rightarrow> Some FileNotFoundError)"

definition parent_error :: "filesystem \<Rightarrow> string \<Rightarrow> error option" where
  "parent_error fs p = first_error fs (ancestors p)"

text \<open>\<^verbatim>\<open>os.mkdir\<close>: creates one directory, and fails when the path exists already.\<close>

definition mkdir :: "filesystem \<Rightarrow> string \<Rightarrow> error + filesystem" where
  "mkdir fs name =
     (if name = [] then Inl FileNotFoundError
      else if rstrip_sep name = [] then Inl FileExistsError
      else case parent_error fs name of
             Some e \<Rightarrow> Inl e
           | None \<Rightarrow> (if fs (rstrip_sep name) \<noteq> None then Inl FileExistsError
                       else Inr (fs(rstrip_sep name \<mapsto> Dir))))"

text \<open>
  \<^verbatim>\<open>open(filename, 'w')\<close> followed by one \<^verbatim>\<open>write\<close> and the close of the
  \<^verbatim>\<open>with\<close> block: the file is created or truncated, and holds the text written.
\<close>

definition write_text :: "filesystem \<Rightarrow> string \<Rightarrow> string \<Rightarrow> error + filesystem" where
  "write_text fs filename txt =
     (if filename = [] then Inl FileNotFoundError
      else if rstrip_sep filename = [] then Inl IsADirectoryError
      else case parent_error fs filename of
             Some e \<Rightarrow> Inl e
           | None \<Rightarrow>
               (case fs (rstrip_sep filename) of
                  Some Dir \<Rightarrow> Inl IsADirectoryError
                | Some (File c) \<Rightarrow>
                    (if rstrip_sep filename = filename then Inr (fs(filename \<mapsto> File txt))
                     else Inl NotADirectoryError)
                | None \<Rightarrow>
                    (if rstrip_sep filename = filename then Inr (fs(filename \<mapsto> File txt))
                     else Inl IsADirectoryError)))"

text \<open>
  Opening a file for reading in text mode and reading all of it. Universal newlines turn
  \<^verbatim>\<open>\r\n\<close> and a lone \<^verbatim>\<open>\r\<close> into \<^verbatim>\<open>\n\<close>.
\<close>

fun universal_newlines :: "string \<Rightarrow> string" where
  "universal_newlines [] = []"
| "universal_newlines [c] = (if c = CHR 0x0D then [CHR 0x0A] else [c])"
| "universal_newlines (c # d # cs) =
     (if c = CHR 0x0D
      then (if d = CHR 0x0A then CHR 0x0A # universal_newlines cs
            else CHR 0x0A # universal_newlines (d # cs))
      else c # universal_newlines (d # cs))"

definition read_text :: "filesystem \<Rightarrow> string \<Rightarrow> error + string" where
  "read_text fs filename =
     (case stat fs filename of
        None \<Rightarrow> Inl FileNotFoundError
      | Some Dir \<Rightarrow> Inl IsADirectoryError
      | Some (File c) \<Rightarrow> Inr (universal_newlines c))"

section \<open>Writing the report\<close>

text \<open>
  \<^verbatim>\<open>os.makedirs(name, exist_ok=True)\<close>, as the standard library defines it: split the
  name, splitting once more when the tail is empty; when the head is missing, create it
  first (a \<^verbatim>\<open>FileExistsError\<close> of that recursive call is ignored), and stop if the
  tail is the current-directory name; then create the directory itself, ignoring the
  failure of \<^verbatim>\<open>mkdir\<close> when the directory exists.
\<close>

definition split_twice :: "string \<Rightarrow> string \<times> string" where
  "split_twice name =
     (let (head, tail) = path_split name
      in if tail = [] then path_split head else (head, tail))"

definition mkdir_exist_ok :: "filesystem \<Rightarrow> string \<Rightarrow> (error + unit) \<times> filesystem" where
  "mkdir_exist_ok fs name =
     (case mkdir fs name of
        Inr fs' \<Rightarrow> (Inr (), fs')
      | Inl e \<Rightarrow> (if isdir fs name then (Inr (), fs) else (Inl e, fs)))"

text \<open>The head of a split is shorter than the name when the tail is not empty.\<close>

lemma rstrip_sep_le: "length (rstrip_sep h) \<le> length h"
  using length_dropWhile_le [of "\<lambda>c. c = CHR ''/''" "rev h"] by (simp add: rstrip_sep_def)

lemma path_split_fst_bound:
  "length (fst (path_split p)) \<le> length (dropWhile (\<lambda>c. c \<noteq> CHR ''/'') (rev p))"
proof -
  let ?h = "rev (dropWhile (\<lambda>c. c \<noteq> CHR ''/'') (rev p))"
  have "fst (path_split p) = ?h \<or> fst (path_split p) = rstrip_sep ?h"
    by (simp add: path_split_def Let_def)
  moreover have "length (rstrip_sep ?h) \<le> length ?h" by (rule rstrip_sep_le)
  ultimately show ?thesis by auto
qed

lemma path_split_fst_le: "length (fst (path_split p)) \<le> length p"
  using path_split_fst_bound [of p] length_dropWhile_le [of "\<lambda>c. c \<noteq> CHR ''/''" "rev p"]
  by simp

lemma path_split_fst_less:
  assumes "snd (path_split p) \<noteq> []"
  shows "length (fst (path_split p)) < length p"
proof -
  let ?t = "takeWhile (\<lambda>c. c \<noteq> CHR ''/'') (rev p)"
  let ?h = "dropWhile (\<lambda>c. c \<noteq> CHR ''/'') (rev p)"
  have "?t \<noteq> []" using assms by (simp add: path_split_def Let_def)
  then have "0 < length ?t" by (rule length_greater_0_conv [THEN iffD2])
  moreover have "length ?t + length ?h = length (rev p)"
    by (simp only: length_append [symmetric] takeWhile_dropWhile_id)
  ultimately have "length ?h < length p" by (simp only: length_rev)
  with path_split_fst_bound [of p] show ?thesis by simp
qed

lemma split_twice_cases:
  "split_twice name = (if snd (path_split name) = [] then path_split (fst (path_split name))
                       else path_split name)"
  by (simp add: split_twice_def Let_def split: prod.splits)

lemma split_twice_less:
  assumes "snd (split_twice name) \<noteq> []"
  shows "length (fst (split_twice name)) < length name"
proof (cases "snd (path_split name) = []")
  case True
  then have s: "split_twice name = path_split (fst (path_split name))"
    by (simp add: split_twice_cases)
  with assms have "length (fst (split_twice name)) < length (fst (path_split name))"
    using path_split_fst_less [of "fst (path_split name)"] by simp
  with path_split_fst_le [of name] show ?thesis by simp
next
  case False
  then have "split_twice name = path_split name"
    by (simp add: split_twice_cases)
  with False show ?thesis using path_split_fst_less [of name] by simp
qed

function makedirs :: "filesystem \<Rightarrow> string \<Rightarrow> (error + unit) \<times> filesystem" where
  "makedirs fs name =
     (if fst (split_twice name) \<noteq> [] \<and> snd (split_twice name) \<noteq> [] \<and>
         \<not> path_exists fs (fst (split_twice name))
      then (case makedirs fs (fst (split_twice name)) of
              (Inl e, fs') \<Rightarrow>
                (if e = FileExistsError
                 then (if snd (split_twice name) = ''.'' then (Inr (), fs')
                       else mkdir_exist_ok fs' name)
                 else (Inl e, fs'))
            | (Inr u, fs') \<Rightarrow>
                (if snd (split_twice name) = ''.'' then (Inr (), fs')
                 else mkdir_exist_ok fs' name))
      else mkdir_exist_ok fs name)"
  by pat_completeness auto
termination
  by (relation "measure (\<lambda>(fs, name). length name)") (auto simp: split_twice_less)

declare makedirs.simps [simp del]

text \<open>
  \<^verbatim>\<open>save_report\<close>: make the directory of the file name, then open the file for
  writing and write the report. An error of either step ends the function; what was
  created before stays.
\<close>

definition save_report :: "string \<Rightarrow> string \<Rightarrow> filesystem \<Rightarrow> (error + unit) \<times> filesystem" where
  "save_report report filename fs =
     (case makedirs fs (dirname filename) of
        (Inl e, fs') \<Rightarrow> (Inl e, fs')
      | (Inr u, fs') \<Rightarrow>
          (case write_text fs' filename report of
             Inl e \<Rightarrow> (Inl e, fs')
           | Inr fs'' \<Rightarrow> (Inr (), fs'')))"

section \<open>Parsing numbers\<close>

text \<open>
  Python's \<^verbatim>\<open>float(s)\<close> on a string: surrounding white space is dropped; then comes an
  optional sign and either \<^verbatim>\<open>inf\<close>, \<^verbatim>\<open>infinity\<close> or \<^verbatim>\<open>nan\<close> in any case, or a
  decimal number: digits with an optional point, at least one digit, an optional
  exponent; single underscores may stand between digits. The value is the double nearest
  to the number written. Any other string raises \<^verbatim>\<open>ValueError\<close>, which is \<open>None\<close>
  here. Characters are code points below 256.
\<close>

definition is_space :: "char \<Rightarrow> bool" where
  "is_space c \<longleftrightarrow> (of_char c :: nat) \<in> {9, 10, 11, 12, 13, 32, 133, 160}"

definition strip_with :: "(char \<Rightarrow> bool) \<Rightarrow> string \<Rightarrow> string" where
  "strip_with P s = rev (dropWhile P (rev (dropWhile P s)))"

definition lower :: "char \<Rightarrow> char" where
  "lower c = (if 65 \<le> (of_char c :: nat) \<and> (of_char c :: nat) \<le> 90
              then char_of ((of_char c :: nat) + 32) else c)"

fun digitpart :: "string \<Rightarrow> string \<times> string" where
  "digitpart [] = ([], [])"
| "digitpart [c] = (if c \<in> digit_chars then ([c], []) else ([], [c]))"
| "digitpart (c # d # cs) =
     (if c \<notin> digit_chars then ([], c # d # cs)
      else if d = CHR ''_''
      then (case cs of
              e # es \<Rightarrow> (if e \<in> digit_chars then (c # fst (digitpart cs), snd (digitpart cs))
                         else ([c], d # cs))
            | [] \<Rightarrow> ([c], d # cs))
      else (c # fst (digitpart (d # cs)), snd (digitpart (d # cs))))"

definition parse_sign :: "string \<Rightarrow> bool \<times> string" where
  "parse_sign s =
     (case s of
        c # r \<Rightarrow> (if c = CHR ''-'' then (True, r) else if c = CHR ''+'' then (False, r) else (False, s))
      | [] \<Rightarrow> (False, s))"

definition parse_exponent :: "string \<Rightarrow> int option" where
  "parse_exponent s =
     (case s of
        [] \<Rightarrow> Some 0
      | c # r \<Rightarrow>
          (if c = CHR ''e'' \<or> c = CHR ''E''
           then (let (neg, r1) = parse_sign r; (ds, r2) = digitpart r1
                 in if ds \<noteq> [] \<and> r2 = []
                    then Some (if neg then - digits_value ds else digits_value ds)
                    else None)
           else None))"

definition parse_decimal :: "string \<Rightarrow> rat option" where
  "parse_decimal s =
     (let (ip, r1) = digitpart s;
          (fp, r2) = (case r1 of c # r \<Rightarrow> if c = CHR ''.'' then digitpart r else ([], r1)
                      | [] \<Rightarrow> ([], r1))
      in if ip = [] \<and> fp = [] then None
         else case parse_exponent r2 of
                None \<Rightarrow> None
              | Some e \<Rightarrow>
                  Some ((of_int (digits_value ip) + of_int (digits_value fp) / 10 ^ length fp)
                        * 10 powi e))"

definition py_float :: "string \<Rightarrow> pyfloat option" where
  "py_float s =
     (let (neg, u) = parse_sign (strip_with is_space s); l = map lower u
      in if l = ''inf'' \<or> l = ''infinity'' then Some (Inf neg)
         else if l = ''nan'' then Some NaN
         else case parse_decimal u of
                None \<Rightarrow> None
              | Some q \<Rightarrow> Some (to_f64 (if neg then - q else q)))"

section \<open>Loading the data\<close>

text \<open>
  \<^verbatim>\<open>np.genfromtxt(filename, delimiter=',', dtype=dtype, skip_header=1)\<close>, with the
  defaults of its other parameters (\<^verbatim>\<open>comments='#'\<close>, \<^verbatim>\<open>autostrip=False\<close>,
  \<^verbatim>\<open>invalid_raise=True\<close>, \<^verbatim>\<open>loose=True\<close>, \<^verbatim>\<open>ndmin=0\<close>), for a local,
  uncompressed file:
  \<^item> the header lines are skipped; of each further line the comment is cut off, blanks and
    line ends are stripped from both ends, and an empty remainder is skipped; the rest
    is split at every delimiter, fields keeping their blanks;
  \<^item> the first row fixes the number of columns; one row with another number of fields
    makes the call raise \<^verbatim>\<open>ValueError\<close>;
  \<^item> each column has the converter of its dtype: the text itself for a string column,
    \<^verbatim>\<open>int(float(x))\<close> for an integer column, \<^verbatim>\<open>float(x)\<close> for a float column.
    The converters are called loosely: a \<^verbatim>\<open>ValueError\<close> of the conversion is not
    raised but replaced by the default of the column, \<open>-1\<close> for an integer and
    not-a-number for a float. \<^verbatim>\<open>int\<close> of an infinity raises \<^verbatim>\<open>OverflowError\<close>,
    which propagates;
  \<^item> the rows become an array of the structured dtype: a row that does not have one
    value per field raises \<^verbatim>\<open>ValueError\<close>, an integer outside 32 bits raises
    \<^verbatim>\<open>OverflowError\<close> (NumPy 2), a string is cut to the width of its field, a float
    is rounded to single precision;
  \<^item> an array of exactly one row is squeezed to a zero-dimensional array.
\<close>

fun split_on :: "char \<Rightarrow> string \<Rightarrow> string list" where
  "split_on sep [] = [[]]"
| "split_on sep (c # cs) =
     (if c = sep then [] # split_on sep cs
      else (case split_on sep cs of p # ps \<Rightarrow> (c # p) # ps | [] \<Rightarrow> [[c]]))"

definition lines_of :: "string \<Rightarrow> string list" where
  "lines_of txt = (let ps = split_on (CHR 0x0A) txt in if last ps = [] then butlast ps else ps)"

definition split_line :: "char \<Rightarrow> string \<Rightarrow> string list" where
  "split_line delimiter line =
     (let l1 = takeWhile (\<lambda>c. c \<noteq> CHR ''#'') line;
          l2 = strip_with (\<lambda>c. c \<in> {CHR '' '', CHR 0x0D, CHR 0x0A}) l1
      in if l2 = [] then [] else split_on delimiter l2)"

datatype kind = U nat | I4 | F4

datatype cell = CStr string | CInt int | CFlt pyfloat

definition dtype :: "(string \<times> kind) list" where
  "dtype = [(''patient_id'', U 10), (''timestamp'', U 20),
            (''heart_rate'', I4), (''blood_pressure_systolic'', I4),
            (''blood_pressure_diastolic'', I4), (''temperature'', F4),
            (''glucose_level'', I4), (''sensor_id'', U 10)]"

definition truncate :: "rat \<Rightarrow> int" where
  "truncate q = (if 0 \<le> q then \<lfloor>q\<rfloor> else - \<lfloor>- q\<rfloor>)"

definition loose_call :: "kind \<Rightarrow> string \<Rightarrow> error + cell" where
  "loose_call k s =
     (case k of
        U n \<Rightarrow> Inr (CStr s)
      | I4 \<Rightarrow> (case py_float s of
                 None \<Rightarrow> Inr (CInt (- 1))
               | Some NaN \<Rightarrow> Inr (CInt (- 1))
               | Some (Inf b) \<Rightarrow> Inl OverflowError
               | Some (Finite q) \<Rightarrow> Inr (CInt (truncate q)))
      | F4 \<Rightarrow> (case py_float s of None \<Rightarrow> Inr (CFlt NaN) | Some x \<Rightarrow> Inr (CFlt x)))"

fun sequenceE :: "(error + 'a) list \<Rightarrow> error + 'a list" where
  "sequenceE [] = Inr []"
| "sequenceE (m # ms) = bindE m (\<lambda>x. bindE (sequenceE ms) (\<lambda>xs. Inr (x # xs)))"

text \<open>The converters are zipped with the fields, so a surplus of either is dropped.\<close>

definition convert_row :: "kind list \<Rightarrow> string list \<Rightarrow> error + cell list" where
  "convert_row kinds row = sequenceE (map (\<lambda>(k, s). loose_call k s) (zip kinds row))"

definition store_i4 :: "int \<Rightarrow> error + i4" where
  "store_i4 n = (if - (2 ^ 31) \<le> n \<and> n < 2 ^ 31 then Inr (word_of_int n) else Inl OverflowError)"

definition store_f4 :: "pyfloat \<Rightarrow> pyfloat" where
  "store_f4 x = (case x of Finite q \<Rightarrow> to_f32 q | y \<Rightarrow> y)"

fun np_record :: "cell list \<Rightarrow> error + reading" where
  "np_record [CStr a, CStr b, CInt c, CInt d, CInt e, CFlt f, CInt g, CStr h] =
     bindE (store_i4 c) (\<lambda>hr.
     bindE (store_i4 d) (\<lambda>sys.
     bindE (store_i4 e) (\<lambda>dia.
     bindE (store_i4 g) (\<lambda>glu.
       Inr \<lparr>patient_id = take 10 a, timestamp = take 20 b, heart_rate = hr,
            blood_pressure_systolic = sys, blood_pressure_diastolic = dia,
            temperature = store_f4 f, glucose_level = glu, sensor_id = take 10 h\<rparr>))))"
| "np_record cells = Inl ValueError"

fun squeeze :: "reading list \<Rightarrow> ndarray" where
  "squeeze [r] = Arr0 r"
| "squeeze rs = Arr1 rs"

definition genfromtxt :: "filesystem \<Rightarrow> string \<Rightarrow> char \<Rightarrow> (string \<times> kind) list \<Rightarrow> nat \<Rightarrow> error + ndarray" where
  "genfromtxt fs fname delimiter dt skip_header =
     bindE (read_text fs fname) (\<lambda>txt.
       let rows = filter (\<lambda>values. values \<noteq> [])
                    (map (split_line delimiter) (drop skip_header (lines_of txt)));
           nbcols = (case rows of [] \<Rightarrow> 0 | first_values # rest \<Rightarrow> length first_values);
           invalid = filter (\<lambda>values. length values \<noteq> nbcols) rows
       in if invalid \<noteq> [] then Inl ValueError
          else bindE (sequenceE (map (convert_row (map snd dt)) rows)) (\<lambda>tuples.
               bindE (sequenceE (map np_record tuples)) (\<lambda>output.
                 Inr (squeeze output))))"

definition load_data :: "filesystem \<Rightarrow> string \<Rightarrow> error + ndarray" where
  "load_data fs filename = genfromtxt fs filename (CHR '','') dtype 1"

section \<open>The pipeline\<close>

text \<open>
  \<^verbatim>\<open>main\<close> runs the four stages in order. No exception is caught, so the first error
  ends the run with the file system as it is at that point. The line printed at the end
  goes to the standard output, which the model leaves out.
\<close>

definition main :: "filesystem \<Rightarrow> (error + unit) \<times> filesystem" where
  "main fs =
     (case load_data fs ''health_data.csv'' of
        Inl e \<Rightarrow> (Inl e, fs)
      | Inr data \<Rightarrow>
          (let stats = calculate_statistics data;
               abnormal = find_abnormal_readings data
           in case np_len data of
                Inl e \<Rightarrow> (Inl e, fs)
              | Inr total_readings \<Rightarrow>
                  (case generate_report stats abnormal total_readings of
                     Inl e \<Rightarrow> (Inl e, fs)
                   | Inr report \<Rightarrow> save_report report ''output/analysis_report.txt'' fs)))"

section \<open>Sample inputs\<close>

definition header_line :: string where
  "header_line = ''patient_id,timestamp,heart_rate,blood_pressure_systolic,'' @
                 ''blood_pressure_diastolic,temperature,glucose_level,sensor_id\<newline>''"

text \<open>A file with the header and exactly one valid data row.\<close>

definition single_row_fs :: filesystem where
  "single_row_fs =
     [''health_data.csv'' \<mapsto> File (header_line @ ''P001,2024-01-01,95,120,80,36.6,100,S1\<newline>'')]"



text \<open>A file with two valid data rows.\<close>

definition two_rows_fs :: filesystem where
  "two_rows_fs =
     [''health_data.csv'' \<mapsto> File (header_line @
        ''P001,2024-01-01,95,120,80,36.6,100,S1\<newline>'' @
        ''P001,2024-01-01,80,140,80,36.6,100,S1\<newline>'')]"

text \<open>The report of the two valid rows, and the file system after a run on them.\<close>

definition two_rows_report :: string where
  "two_rows_report =
     ''Health Sensor Data Analysis Report\<newline>'' @
     ''==================================\<newline>'' @
     ''\<newline>'' @
     ''Dataset Summary:\<newline>'' @
     ''- Total readings: 2\<newline>'' @
     ''\<newline>'' @
     ''Average Measurements:\<newline>'' @
     ''- Heart Rate: 87.5 bpm\<newline>'' @
     ''- Systolic BP: 130.0 mmHg\<newline>'' @
     ''- Glucose Level: 100.0 mg/dL\<newline>'' @
     ''\<newline>'' @
     ''Abnormal Readings:\<newline>'' @
     ''- High Heart Rate (>90): 1 readings\<newline>'' @
     ''- High Blood Pressure (>130): 1 readings\<newline>'' @
     ''- High Glucose (>110): 0 readings\<newline>''"

definition two_rows_done :: filesystem where
  "two_rows_done =
     two_rows_fs(''output'' \<mapsto> Dir, ''output/analysis_report.txt'' \<mapsto> File two_rows_report)"

section \<open>Notions used by the statements\<close>


text \<open>The rows that \<open>load_data\<close> finds in the text of a file: the non-blank lines after the header, split into fields.\<close>

definition data_rows :: "string \<Rightarrow> string list list" where
  "data_rows txt =
     filter (\<lambda>values. values \<noteq> []) (map (split_line (CHR '','')) (drop 1 (lines_of txt)))"

text \<open>The report that \<open>main\<close> computes from the input file, before it writes it.\<close>

definition computed_report :: "filesystem \<Rightarrow> error + string" where
  "computed_report fs =
     bindE (load_data fs ''health_data.csv'') (\<lambda>data.
     bindE (np_len data) (\<lambda>total_readings.
       generate_report (calculate_statistics data) (find_abnormal_readings data) total_readings))"

section \<open>Properties of the threshold counts\<close>

lemma bool_sum_map_card:
  "bool_sum (map P xs) = int (card {i. i < length xs \<and> P (xs ! i)})"
proof (induction xs rule: rev_induct)
  case Nil
  show ?case by (simp add: bool_sum_def)
next
  case (snoc x xs)
  have split: "{i. i < length (xs @ [x]) \<and> P ((xs @ [x]) ! i)} =
      {i. i < length xs \<and> P (xs ! i)} \<union> (if P x then {length xs} else {})"
    by (auto simp: nth_append less_Suc_eq)
  have fin: "finite {i. i < length xs \<and> P (xs ! i)}" by simp
  have "bool_sum (map P (xs @ [x])) = bool_sum (map P xs) + (if P x then 1 else 0)"
    by (simp add: bool_sum_def)
  also have "\<dots> = int (card {i. i < length xs \<and> P (xs ! i)}) + (if P x then 1 else 0)"
    by (simp only: snoc.IH)
  also have "\<dots> = int (card {i. i < length (xs @ [x]) \<and> P ((xs @ [x]) ! i)})"
    unfolding split using fin by (simp add: card_insert_if)
  finally show ?case .
qed

lemma count_gt_card:
  "bool_sum (gt_scalar (column f data) c) =
     int (card {i. i < length (elems data) \<and> c < sint (f (elems data ! i))})"
proof -
  have "gt_scalar (column f data) c = map (\<lambda>r. c < sint (f r)) (elems data)"
    by (simp add: gt_scalar_def column_def)
  then show ?thesis
    using bool_sum_map_card [of "\<lambda>r. c < sint (f r)" "elems data"] by simp
qed

lemma card_index_le: "card {i. i < n \<and> Q i} \<le> n"
proof -
  have "card {i. i < n \<and> Q i} \<le> card {..<n}"
    by (rule card_mono) auto
  then show ?thesis by simp
qed

text \<open>
  Claim C1. For every dataset of \<open>N\<close> rows, \<open>find_abnormal_readings\<close> returns exactly
  the three counts \<open>high_heart_rate\<close>, \<open>high_blood_pressure\<close> and \<open>high_glucose\<close>.
  Each is the number of row indices whose heart rate is strictly above 90, whose
  systolic pressure is strictly above 130 and whose glucose level is strictly above 110
  respectively, counted independently of the other two columns; each count lies between
  0 and \<open>N\<close>; and a row whose heart rate is exactly 90 adds nothing to
  \<open>high_heart_rate\<close>, wherever it stands in the dataset.
\<close>

theorem find_abnormal_readings_exact_counts:
  "find_abnormal_readings data ''high_heart_rate'' =
     Some (int (card {i. i < length (elems data) \<and> 90 < sint (heart_rate (elems data ! i))})) \<and>
   find_abnormal_readings data ''high_blood_pressure'' =
     Some (int (card {i. i < length (elems data) \<and>
                         130 < sint (blood_pressure_systolic (elems data ! i))})) \<and>
   find_abnormal_readings data ''high_glucose'' =
     Some (int (card {i. i < length (elems data) \<and> 110 < sint (glucose_level (elems data ! i))})) \<and>
   dom (find_abnormal_readings data) = {''high_heart_rate'', ''high_blood_pressure'', ''high_glucose''} \<and>
   (\<forall>k v. find_abnormal_readings data k = Some v \<longrightarrow> 0 \<le> v \<and> v \<le> int (length (elems data))) \<and>
   (heart_rate r = 90 \<longrightarrow>
      find_abnormal_readings (Arr1 (xs @ r # ys)) ''high_heart_rate'' =
      find_abnormal_readings (Arr1 (xs @ ys)) ''high_heart_rate'')"
proof -
  let ?N = "length (elems data)"
  let ?hr = "bool_sum (gt_scalar (column heart_rate data) 90)"
  let ?bp = "bool_sum (gt_scalar (column blood_pressure_systolic data) 130)"
  let ?gl = "bool_sum (gt_scalar (column glucose_level data) 110)"
  have m: "find_abnormal_readings data =
      [''high_heart_rate'' \<mapsto> ?hr, ''high_blood_pressure'' \<mapsto> ?bp, ''high_glucose'' \<mapsto> ?gl]"
    by (simp add: find_abnormal_readings_def Let_def)
  have hr: "?hr = int (card {i. i < ?N \<and> 90 < sint (heart_rate (elems data ! i))})"
    by (rule count_gt_card)
  have bp: "?bp = int (card {i. i < ?N \<and> 130 < sint (blood_pressure_systolic (elems data ! i))})"
    by (rule count_gt_card)
  have gl: "?gl = int (card {i. i < ?N \<and> 110 < sint (glucose_level (elems data ! i))})"
    by (rule count_gt_card)
  have c1: "find_abnormal_readings data ''high_heart_rate'' = Some ?hr"
    unfolding m by simp
  have c2: "find_abnormal_readings data ''high_blood_pressure'' = Some ?bp"
    unfolding m by simp
  have c3: "find_abnormal_readings data ''high_glucose'' = Some ?gl"
    unfolding m by simp
  have d: "dom (find_abnormal_readings data) =
      {''high_heart_rate'', ''high_blood_pressure'', ''high_glucose''}"
    unfolding m by auto
  have range: "0 \<le> v \<and> v \<le> int ?N" if "find_abnormal_readings data k = Some v" for k v
  proof -
    from that have "v = ?hr \<or> v = ?bp \<or> v = ?gl"
      unfolding m by (auto split: if_splits)
    then show ?thesis
      using card_index_le [of ?N "\<lambda>i. 90 < sint (heart_rate (elems data ! i))"]
        card_index_le [of ?N "\<lambda>i. 130 < sint (blood_pressure_systolic (elems data ! i))"]
        card_index_le [of ?N "\<lambda>i. 110 < sint (glucose_level (elems data ! i))"]
      unfolding hr bp gl by auto
  qed
  have boundary: "find_abnormal_readings (Arr1 (xs @ r # ys)) ''high_heart_rate'' =
      find_abnormal_readings (Arr1 (xs @ ys)) ''high_heart_rate''" if "heart_rate r = 90"
    using that
    by (simp add: find_abnormal_readings_def Let_def column_def gt_scalar_def bool_sum_def)
  show ?thesis
    using c1 c2 c3 d range boundary unfolding hr bp gl by blast
qed

theorem find_abnormal_readings_exact_counts_witness:
  "find_abnormal_readings (Arr1 [example_row 95 120 100, example_row 90 140 100]) ''high_heart_rate''
     = Some 1 \<and>
   heart_rate (example_row 90 140 100) = 90 \<and>
   find_abnormal_readings (Arr1 [example_row 95 120 100, example_row 90 140 100]) ''high_heart_rate'' =
   find_abnormal_readings (Arr1 [example_row 95 120 100]) ''high_heart_rate''"
proof -
  have h: "heart_rate (example_row 90 140 100) = 90"
    by (simp add: example_row_def)
  have v: "find_abnormal_readings (Arr1 [example_row 95 120 100, example_row 90 140 100])
      ''high_heart_rate'' = Some 1"
    by (simp add: find_abnormal_readings_def Let_def column_def gt_scalar_def bool_sum_def
        example_row_def)
  from find_abnormal_readings_exact_counts
    [of "Arr1 [example_row 95 120 100, example_row 90 140 100]" "example_row 90 140 100"
      "[example_row 95 120 100]" "[]"] h
  have "find_abnormal_readings (Arr1 ([example_row 95 120 100] @ example_row 90 140 100 # []))
      ''high_heart_rate'' =
    find_abnormal_readings (Arr1 ([example_row 95 120 100] @ [])) ''high_heart_rate''"
    by blast
  with h v show ?thesis by simp
qed

section \<open>Properties of the report\<close>

lemma getitem_Some: "d k = Some v \<Longrightarrow> getitem d k = Inr v"
  by (simp add: getitem_def)

lemma bindE_Inr [simp]: "bindE (Inr x) f = f x"
  by (simp add: bindE_def)

lemma bindE_Inl [simp]: "bindE (Inl e) f = Inl e"
  by (simp add: bindE_def)

lemma generate_report_filled:
  assumes "{''avg_heart_rate'', ''avg_systolic_bp'', ''avg_glucose''} \<subseteq> dom stats"
    and "{''high_heart_rate'', ''high_blood_pressure'', ''high_glucose''} \<subseteq> dom abnormal"
  shows "generate_report stats abnormal n =
           Inr (fill_template (report_values stats abnormal n) report_template)"
proof -
  from assms(1) obtain a b c where s:
    "stats ''avg_heart_rate'' = Some a" "stats ''avg_systolic_bp'' = Some b"
    "stats ''avg_glucose'' = Some c"
    by auto
  from assms(2) obtain x y z where ab:
    "abnormal ''high_heart_rate'' = Some x" "abnormal ''high_blood_pressure'' = Some y"
    "abnormal ''high_glucose'' = Some z"
    by auto
  have lhs: "generate_report stats abnormal n =
      Inr (''Health Sensor Data Analysis Report\<newline>'' @
            ''==================================\<newline>\<newline>'' @
            ''Dataset Summary:\<newline>'' @
            ''- Total readings: '' @ py_str_int n @ ''\<newline>\<newline>'' @
            ''Average Measurements:\<newline>'' @
            ''- Heart Rate: '' @ a @ '' bpm\<newline>'' @
            ''- Systolic BP: '' @ b @ '' mmHg\<newline>'' @
            ''- Glucose Level: '' @ c @ '' mg/dL\<newline>\<newline>'' @
            ''Abnormal Readings:\<newline>'' @
            ''- High Heart Rate (>90): '' @ py_str_int x @ '' readings\<newline>'' @
            ''- High Blood Pressure (>130): '' @ py_str_int y @ '' readings\<newline>'' @
            ''- High Glucose (>110): '' @ py_str_int z @ '' readings\<newline>'')"
    unfolding generate_report_def
    by (simp add: getitem_def s ab)
  have v: "report_values stats abnormal n ''total'' = py_str_int n"
    "report_values stats abnormal n ''avg_heart_rate'' = a"
    "report_values stats abnormal n ''avg_systolic_bp'' = b"
    "report_values stats abnormal n ''avg_glucose'' = c"
    "report_values stats abnormal n ''high_heart_rate'' = py_str_int x"
    "report_values stats abnormal n ''high_blood_pressure'' = py_str_int y"
    "report_values stats abnormal n ''high_glucose'' = py_str_int z"
    by (simp_all add: report_values_def s ab)
  have rhs: "fill_template (report_values stats abnormal n) report_template =
      ''Health Sensor Data Analysis Report\<newline>'' @
            ''==================================\<newline>\<newline>'' @
            ''Dataset Summary:\<newline>'' @
            ''- Total readings: '' @ py_str_int n @ ''\<newline>\<newline>'' @
            ''Average Measurements:\<newline>'' @
            ''- Heart Rate: '' @ a @ '' bpm\<newline>'' @
            ''- Systolic BP: '' @ b @ '' mmHg\<newline>'' @
            ''- Glucose Level: '' @ c @ '' mg/dL\<newline>\<newline>'' @
            ''Abnormal Readings:\<newline>'' @
            ''- High Heart Rate (>90): '' @ py_str_int x @ '' readings\<newline>'' @
            ''- High Blood Pressure (>130): '' @ py_str_int y @ '' readings\<newline>'' @
            ''- High Glucose (>110): '' @ py_str_int z @ '' readings\<newline>''"
    unfolding fill_template_def report_template_def
    by (simp add: v)
  show ?thesis
    unfolding lhs rhs ..
qed

text \<open>
  Claim C3. For every stats mapping and abnormal-counts mapping that hold their three
  entries, and every total, \<open>generate_report\<close> fails in no way and returns exactly the
  specification's template with the six values and the total substituted: the two header
  lines, the Dataset Summary with the total, the Average Measurements with the three
  averages and their units, and the Abnormal Readings with the three counts. The
  function takes and returns no file-system state, so it is pure.
\<close>

theorem generate_report_matches_template:
  assumes "{''avg_heart_rate'', ''avg_systolic_bp'', ''avg_glucose''} \<subseteq> dom stats"
    and "{''high_heart_rate'', ''high_blood_pressure'', ''high_glucose''} \<subseteq> dom abnormal"
  shows "generate_report stats abnormal n =
           Inr (fill_template (report_values stats abnormal n) report_template)"
  using assms by (rule generate_report_filled)

theorem generate_report_matches_template_witness:
  "{''avg_heart_rate'', ''avg_systolic_bp'', ''avg_glucose''} \<subseteq> dom example_stats \<and>
   {''high_heart_rate'', ''high_blood_pressure'', ''high_glucose''} \<subseteq> dom example_abnormal \<and>
   generate_report example_stats example_abnormal 2 =
     Inr (''Health Sensor Data Analysis Report\<newline>'' @
          ''==================================\<newline>'' @
          ''\<newline>'' @
          ''Dataset Summary:\<newline>'' @
          ''- Total readings: 2\<newline>'' @
          ''\<newline>'' @
          ''Average Measurements:\<newline>'' @
          ''- Heart Rate: 87.5 bpm\<newline>'' @
          ''- Systolic BP: 130.0 mmHg\<newline>'' @
          ''- Glucose Level: 100.0 mg/dL\<newline>'' @
          ''\<newline>'' @
          ''Abnormal Readings:\<newline>'' @
          ''- High Heart Rate (>90): 1 readings\<newline>'' @
          ''- High Blood Pressure (>130): 1 readings\<newline>'' @
          ''- High Glucose (>110): 0 readings\<newline>'')"
proof -
  have h1: "{''avg_heart_rate'', ''avg_systolic_bp'', ''avg_glucose''} \<subseteq> dom example_stats"
    by (simp add: example_stats_def)
  have h2: "{''high_heart_rate'', ''high_blood_pressure'', ''high_glucose''} \<subseteq> dom example_abnormal"
    by (simp add: example_abnormal_def)
  have "fill_template (report_values example_stats example_abnormal 2) report_template =
      ''Health Sensor Data Analysis Report\<newline>'' @
          ''==================================\<newline>'' @
          ''\<newline>'' @
          ''Dataset Summary:\<newline>'' @
          ''- Total readings: 2\<newline>'' @
          ''\<newline>'' @
          ''Average Measurements:\<newline>'' @
          ''- Heart Rate: 87.5 bpm\<newline>'' @
          ''- Systolic BP: 130.0 mmHg\<newline>'' @
          ''- Glucose Level: 100.0 mg/dL\<newline>'' @
          ''\<newline>'' @
          ''Abnormal Readings:\<newline>'' @
          ''- High Heart Rate (>90): 1 readings\<newline>'' @
          ''- High Blood Pressure (>130): 1 readings\<newline>'' @
          ''- High Glucose (>110): 0 readings\<newline>''"
    by (simp add: fill_template_def report_template_def report_values_def example_stats_def
        example_abnormal_def py_str_int_def dec.simps digit_char_def)
  with generate_report_matches_template [OF h1 h2, of 2] h1 h2 show ?thesis
    by simp
qed

section \<open>Properties of the floating-point operations\<close>

lemma round_half_even_error: "\<bar>of_int (round_half_even q) - q\<bar> \<le> 1 / 2"
proof -
  have "of_int \<lfloor>q\<rfloor> \<le> q" "q < of_int \<lfloor>q\<rfloor> + 1"
    by linarith+
  then show ?thesis
    by (auto simp: round_half_even_def Let_def)
qed

lemma round_half_even_nonneg: "0 \<le> q \<Longrightarrow> 0 \<le> round_half_even q"
  by (auto simp: round_half_even_def Let_def) 

lemma powi_nonneg: "0 \<le> k \<Longrightarrow> (2::rat) powi k = 2 ^ nat k"
  by (simp add: power_int_def)

lemma powi_neg: "0 \<le> k \<Longrightarrow> (2::rat) powi (- k) = 1 / 2 ^ nat k"
  by (cases "k = 0") (simp_all add: power_int_def field_simps)

lemma ilog2_bounds:
  assumes "q \<noteq> 0"
  shows "2 powi ilog2 q \<le> \<bar>q\<bar>" and "\<bar>q\<bar> < 2 powi (ilog2 q + 1)"
proof -
  have pos: "0 < \<bar>q\<bar>" using assms by simp
  show "2 powi ilog2 q \<le> \<bar>q\<bar>"
  proof (cases "1 \<le> \<bar>q\<bar>")
    case True
    define n where "n = \<lfloor>\<bar>q\<bar>\<rfloor>"
    have n1: "1 \<le> n" using True by (simp add: n_def le_floor_iff)
    then have bl: "1 \<le> bitlen n" by (simp add: bitlen_alt_def)
    have "2 ^ nat (bitlen n - 1) \<le> n" using bitlen_bounds [of n] n1 by simp
    then have "(2::rat) ^ nat (bitlen n - 1) \<le> of_int n"
      by (metis of_int_le_iff of_int_numeral of_int_power)
    also have "\<dots> \<le> \<bar>q\<bar>" by (simp add: n_def)
    finally have "(2::rat) ^ nat (bitlen n - 1) \<le> \<bar>q\<bar>" .
    moreover have "ilog2 q = bitlen n - 1" using True by (simp add: ilog2_def n_def)
    ultimately show ?thesis using bl by (simp add: power_int_def)
  next
    case False
    define x where "x = 1 / \<bar>q\<bar>"
    have x1: "1 < x" using False pos by (simp add: x_def)
    define n where "n = \<lceil>x\<rceil> - 1"
    have nx: "of_int n < x" "x \<le> of_int n + 1"
      unfolding n_def by linarith+
    have n1: "1 \<le> n" using x1 nx by linarith
    have "n < 2 ^ nat (bitlen n)" using bitlen_bounds [of n] n1 by simp
    then have "n + 1 \<le> 2 ^ nat (bitlen n)" by simp
    then have "(of_int (n + 1) :: rat) \<le> 2 ^ nat (bitlen n)"
      by (metis of_int_le_iff of_int_numeral of_int_power)
    with nx(2) have "x \<le> 2 ^ nat (bitlen n)" by simp
    then have "1 / \<bar>q\<bar> \<le> 2 ^ nat (bitlen n)" by (simp add: x_def)
    then have "1 / 2 ^ nat (bitlen n) \<le> \<bar>q\<bar>"
      using pos by (simp add: field_simps)
    moreover have "ilog2 q = - bitlen n" using False by (simp add: ilog2_def n_def x_def)
    moreover have "1 \<le> bitlen n" using n1 by (simp add: bitlen_alt_def)
    ultimately show ?thesis by (simp add: power_int_def field_simps)
  qed
  show "\<bar>q\<bar> < 2 powi (ilog2 q + 1)"
  proof (cases "1 \<le> \<bar>q\<bar>")
    case True
    define n where "n = \<lfloor>\<bar>q\<bar>\<rfloor>"
    have n1: "1 \<le> n" using True by (simp add: n_def le_floor_iff)
    have "n < 2 ^ nat (bitlen n)" using bitlen_bounds [of n] n1 by simp
    then have "n + 1 \<le> 2 ^ nat (bitlen n)" by simp
    then have "(of_int (n + 1) :: rat) \<le> 2 ^ nat (bitlen n)"
      by (metis of_int_le_iff of_int_numeral of_int_power)
    moreover have "\<bar>q\<bar> < of_int (n + 1)" unfolding n_def by simp linarith
    ultimately have "\<bar>q\<bar> < 2 ^ nat (bitlen n)" by simp
    moreover have "ilog2 q = bitlen n - 1" using True by (simp add: ilog2_def n_def)
    moreover have "0 \<le> bitlen n" by (rule bitlen_nonneg)
    ultimately show ?thesis by (simp add: power_int_def)
  next
    case False
    define x where "x = 1 / \<bar>q\<bar>"
    have x1: "1 < x" using False pos by (simp add: x_def)
    define n where "n = \<lceil>x\<rceil> - 1"
    have nx: "of_int n < x" "x \<le> of_int n + 1"
      unfolding n_def by linarith+
    have n1: "1 \<le> n" using x1 nx by linarith
    then have bl: "1 \<le> bitlen n" by (simp add: bitlen_alt_def)
    have "2 ^ nat (bitlen n - 1) \<le> n" using bitlen_bounds [of n] n1 by simp
    then have "(2::rat) ^ nat (bitlen n - 1) \<le> of_int n"
      by (metis of_int_le_iff of_int_numeral of_int_power)
    with nx(1) have "(2::rat) ^ nat (bitlen n - 1) < x" by linarith
    then have "(2::rat) ^ nat (bitlen n - 1) < 1 / \<bar>q\<bar>" by (simp only: x_def)
    then have "\<bar>q\<bar> < 1 / 2 ^ nat (bitlen n - 1)"
      using pos by (simp add: field_simps)
    moreover have "ilog2 q + 1 = - (bitlen n - 1)"
      using False by (simp add: ilog2_def n_def x_def)
    moreover have "(2::rat) powi (- (bitlen n - 1)) = 1 / 2 ^ nat (bitlen n - 1)"
      using bl by (intro powi_neg) simp
    ultimately show ?thesis by simp
  qed
qed


lemma round_binary_error:
  assumes "q \<noteq> 0" and "emin \<le> ilog2 q - (int p - 1)"
  shows "\<bar>round_binary p emin q - q\<bar> \<le> \<bar>q\<bar> / 2 ^ p"
proof -
  define e where "e = ilog2 q - (int p - 1)"
  define s :: rat where "s = 2 powi e"
  have spos: "0 < s" by (simp add: s_def)
  have rb: "round_binary p emin q = of_int (round_half_even (q / s)) * s"
    using assms by (simp add: round_binary_def Let_def e_def s_def max_def)
  have "\<bar>of_int (round_half_even (q / s)) - q / s\<bar> * s \<le> 1 / 2 * s"
    using round_half_even_error [of "q / s"] spos by (intro mult_right_mono) simp_all
  moreover have "\<bar>of_int (round_half_even (q / s)) - q / s\<bar> * s =
      \<bar>of_int (round_half_even (q / s)) * s - q\<bar>"
  proof -
    have "\<bar>of_int (round_half_even (q / s)) - q / s\<bar> * s =
        \<bar>(of_int (round_half_even (q / s)) - q / s) * s\<bar>"
      using spos by (simp add: abs_mult)
    also have "(of_int (round_half_even (q / s)) - q / s) * s =
        of_int (round_half_even (q / s)) * s - q"
      using spos by (simp add: field_simps)
    finally show ?thesis .
  qed
  ultimately have err: "\<bar>round_binary p emin q - q\<bar> \<le> s / 2"
    by (simp add: rb)
  have "e = (ilog2 q + 1) - int p" by (simp add: e_def)
  then have "s = 2 powi (ilog2 q + 1) / 2 powi (int p)"
    unfolding s_def by (simp only: power_int_diff [of "2::rat", simplified])
  also have "\<dots> = 2 * 2 powi ilog2 q / 2 ^ p"
    by (simp add: power_int_add)
  finally have "s / 2 = 2 powi ilog2 q / 2 ^ p" by simp
  also have "\<dots> \<le> \<bar>q\<bar> / 2 ^ p"
    using ilog2_bounds(1) [OF assms(1)] by (simp add: divide_right_mono)
  finally show ?thesis using err by linarith
qed

lemma ilog2_ge:
  assumes "q \<noteq> 0" and "2 powi k \<le> \<bar>q\<bar>"
  shows "k \<le> ilog2 q"
proof (rule ccontr)
  assume "\<not> k \<le> ilog2 q"
  then have "ilog2 q + 1 \<le> k" by simp
  then have "(2::rat) powi (ilog2 q + 1) \<le> 2 powi k"
    by (intro power_int_increasing) simp_all
  with ilog2_bounds(2) [OF assms(1)] assms(2) show False by linarith
qed

lemma overflow_iff: "overflow e r \<longleftrightarrow> 2 powi e \<le> \<bar>r\<bar>"
proof
  assume "overflow e r"
  then have r: "r \<noteq> 0" and e: "e \<le> ilog2 r" by (simp_all add: overflow_def)
  from e have "(2::rat) powi e \<le> 2 powi ilog2 r"
    by (intro power_int_increasing) simp_all
  with ilog2_bounds(1) [OF r] show "2 powi e \<le> \<bar>r\<bar>" by linarith
next
  assume a: "2 powi e \<le> \<bar>r\<bar>"
  have "(0::rat) < 2 powi e" by simp
  with a have "0 < \<bar>r\<bar>" by linarith
  then have r: "r \<noteq> 0" by simp
  from ilog2_ge [OF r a] r show "overflow e r" by (simp add: overflow_def)
qed

lemma to_f64_normal:
  assumes "2 powi (- 1022) \<le> \<bar>q\<bar>" and "\<bar>q\<bar> < 2 ^ 1023"
  shows "\<exists>r. to_f64 q = Finite r \<and> \<bar>r - q\<bar> \<le> \<bar>q\<bar> / 2 ^ 53"
proof -
  have q0: "q \<noteq> 0" using assms(1) by auto
  have "- 1022 \<le> ilog2 q" using ilog2_ge [OF q0 assms(1)] .
  then have emin: "- 1074 \<le> ilog2 q - (int 53 - 1)" by simp
  define r where "r = round_binary 53 (- 1074) q"
  have err: "\<bar>r - q\<bar> \<le> \<bar>q\<bar> / 2 ^ 53"
    unfolding r_def using round_binary_error [OF q0 emin] .
  have "\<bar>q\<bar> / 2 ^ 53 \<le> \<bar>q\<bar>" by (simp add: field_simps)
  with err have "\<bar>r\<bar> \<le> 2 * \<bar>q\<bar>" by linarith
  with assms(2) have "\<bar>r\<bar> < 2 * 2 ^ 1023" by linarith
  then have "\<bar>r\<bar> < 2 powi 1024" by simp
  then have "\<not> overflow 1024 r" by (simp add: overflow_iff)
  then have "to_f64 q = Finite r" by (simp add: to_f64_def r_def Let_def)
  with err show ?thesis by blast
qed


lemma to_f64_zero: "to_f64 0 = Finite 0"
  by (simp add: to_f64_def round_binary_def overflow_def)

text \<open>The double nearest to an integer of moderate size.\<close>

lemma to_f64_of_int:
  assumes "\<bar>z\<bar> < 2 ^ 1000"
  shows "\<exists>r. to_f64 (of_int z) = Finite r \<and> \<bar>r - of_int z\<bar> \<le> \<bar>of_int z\<bar> / 2 ^ 53"
proof (cases "z = 0")
  case True
  then show ?thesis by (simp add: to_f64_zero)
next
  case False
  then have "1 \<le> \<bar>z\<bar>" by simp
  then have "(1::rat) \<le> \<bar>of_int z\<bar>"
    by (metis of_int_1 of_int_abs of_int_le_iff)
  moreover have "(2::rat) powi (- 1022) \<le> 1"
    using power_int_increasing [of "- 1022" 0 "2::rat"] by simp
  ultimately have lo: "2 powi (- 1022) \<le> \<bar>rat_of_int z\<bar>" by linarith
  have "\<bar>z\<bar> < 2 ^ 1023" using assms by simp
  then have "rat_of_int \<bar>z\<bar> < of_int (2 ^ 1023)" by (simp only: of_int_less_iff)
  then have hi: "\<bar>rat_of_int z\<bar> < 2 ^ 1023" by simp
  from to_f64_normal [OF lo hi] show ?thesis .
qed


lemma quotient_error:
  fixes S S' N N' u :: rat
  assumes N: "0 < N" and S': "\<bar>S' - S\<bar> \<le> \<bar>S\<bar> * u" and N': "\<bar>N' - N\<bar> \<le> N * u"
    and u: "0 \<le> u" "u \<le> 1 / 4"
  shows "0 < N'" and "\<bar>S' / N' - S / N\<bar> \<le> 3 * u * (\<bar>S\<bar> / N)"
proof -
  have "N * u \<le> N * (1 / 4)" using N u by (intro mult_left_mono) simp_all
  with N' have lo: "3 / 4 * N \<le> N'" by linarith
  with N show N'pos: "0 < N'" by linarith
  have "S' * N - S * N' = (S' - S) * N - S * (N' - N)" by (simp add: algebra_simps)
  then have "\<bar>S' * N - S * N'\<bar> \<le> \<bar>(S' - S) * N\<bar> + \<bar>S * (N' - N)\<bar>"
    by (simp only: abs_triangle_ineq4)
  also have "\<bar>(S' - S) * N\<bar> = \<bar>S' - S\<bar> * N" using N by (simp add: abs_mult)
  also have "\<bar>S * (N' - N)\<bar> = \<bar>S\<bar> * \<bar>N' - N\<bar>" by (simp add: abs_mult)
  also have "\<bar>S' - S\<bar> * N + \<bar>S\<bar> * \<bar>N' - N\<bar> \<le> \<bar>S\<bar> * u * N + \<bar>S\<bar> * (N * u)"
    using S' N' N by (intro add_mono mult_right_mono mult_left_mono) simp_all
  finally have num: "\<bar>S' * N - S * N'\<bar> \<le> 2 * u * \<bar>S\<bar> * N" by (simp add: algebra_simps)
  have "S' / N' - S / N = (S' * N - S * N') / (N' * N)"
    using N N'pos by (simp add: field_simps)
  then have "\<bar>S' / N' - S / N\<bar> = \<bar>S' * N - S * N'\<bar> / (N' * N)"
    using N N'pos by (simp add: abs_mult)
  also have "\<dots> \<le> (2 * u * \<bar>S\<bar> * N) / (N' * N)"
    using num N N'pos by (intro divide_right_mono) simp_all
  also have "\<dots> = 2 * u * \<bar>S\<bar> / N'" using N by simp
  also have "\<dots> \<le> 2 * u * \<bar>S\<bar> / (3 / 4 * N)"
    using lo N u by (intro divide_left_mono) (simp_all add: mult_pos_pos)
  also have "\<dots> \<le> 3 * u * (\<bar>S\<bar> / N)"
  proof -
    define w where "w = u * (\<bar>S\<bar> / N)"
    have a: "2 * u * \<bar>S\<bar> / (3 / 4 * N) = 8 / 3 * w" by (simp add: w_def)
    have b: "3 * u * (\<bar>S\<bar> / N) = 3 * w" by (simp add: w_def)
    have "0 \<le> w" using u N by (simp add: w_def)
    then have "8 / 3 * w \<le> 3 * w" by linarith
    then show ?thesis by (simp only: a b)
  qed
  finally show "\<bar>S' / N' - S / N\<bar> \<le> 3 * u * (\<bar>S\<bar> / N)" .
qed

lemma sum_sint_bound: "\<bar>sum_list (map sint (xs :: i4 list))\<bar> \<le> int (length xs) * 2 ^ 31"
proof (induction xs)
  case Nil
  show ?case by simp
next
  case (Cons x xs)
  have "- (2 ^ 31) \<le> sint x" "sint x < 2 ^ 31"
    using sint_ge [of x] sint_lt [of x] by simp_all
  with Cons.IH show ?case by (simp add: algebra_simps)
qed


lemma np_mean_close:
  fixes xs :: "i4 list"
  assumes ne: "xs \<noteq> []" and len: "length xs < 2 ^ 63"
  shows "\<exists>m. np_mean xs = Finite m \<and>
           \<bar>m - of_int (sum_list (map sint xs)) / of_nat (length xs)\<bar> \<le> 1 / 2 ^ 19"
proof -
  define S where "S = sum_list (map sint xs)"
  define N where "N = int (length xs)"
  define u :: rat where "u = 1 / 2 ^ 53"
  define \<mu> :: rat where "\<mu> = of_int S / of_int N"
  have N1: "1 \<le> N" using ne by (cases xs) (simp_all add: N_def)
  have N63: "N < 2 ^ 63" using len by (simp add: N_def)
  have Sb: "\<bar>S\<bar> \<le> N * 2 ^ 31" unfolding S_def N_def by (rule sum_sint_bound)
  have "N * 2 ^ 31 < 2 ^ 63 * 2 ^ 31" using N63 by simp
  with Sb have S94: "\<bar>S\<bar> < 2 ^ 1000" by simp
  from to_f64_of_int [OF S94] obtain S' where
    S': "to_f64 (of_int S) = Finite S'" "\<bar>S' - of_int S\<bar> \<le> \<bar>of_int S\<bar> / 2 ^ 53"
    by blast
  have "\<bar>N\<bar> < 2 ^ 1000" using N1 N63 by simp
  from to_f64_of_int [OF this] obtain N' where
    N': "to_f64 (of_int N) = Finite N'" "\<bar>N' - of_int N\<bar> \<le> \<bar>of_int N\<bar> / 2 ^ 53"
    by blast
  have Npos: "(0::rat) < of_int N" using N1 by simp
  have pS: "\<bar>S' - of_int S\<bar> \<le> \<bar>of_int S\<bar> * u" using S'(2) by (simp add: u_def)
  have pN: "\<bar>N' - of_int N\<bar> \<le> of_int N * u" using N'(2) Npos by (simp add: u_def)
  have pu: "0 \<le> u" "u \<le> 1 / 4" by (simp_all add: u_def)
  have "\<bar>rat_of_int S\<bar> / of_int N = \<bar>\<mu>\<bar>" using Npos by (simp add: \<mu>_def)
  with quotient_error [OF Npos pS pN pu]
  have q: "0 < N'" "\<bar>S' / N' - \<mu>\<bar> \<le> 3 * u * \<bar>\<mu>\<bar>"
    by (simp_all add: \<mu>_def)
  have mean: "np_mean xs = to_f64 (S' / N')"
    using S'(1) N'(1) q(1) by (simp add: np_mean_def S_def N_def)
  have goal: "of_int (sum_list (map sint xs)) / of_nat (length xs) = \<mu>"
    by (simp add: \<mu>_def S_def N_def)
  show ?thesis
  proof (cases "S = 0")
    case True
    then have "S' = 0" using S'(2) by simp
    then show ?thesis
      unfolding goal mean using True by (simp add: to_f64_zero \<mu>_def)
  next
    case False
    then have "1 \<le> \<bar>S\<bar>" by simp
    then have S1: "(1::rat) \<le> \<bar>of_int S\<bar>"
      by (metis of_int_1 of_int_abs of_int_le_iff)
    have "rat_of_int N < of_int (2 ^ 63)" using N63 by (simp only: of_int_less_iff)
    then have Nr: "rat_of_int N < 2 ^ 63" by simp
    have "\<bar>\<mu>\<bar> = \<bar>of_int S\<bar> / of_int N" using Npos by (simp add: \<mu>_def)
    moreover have "1 / 2 ^ 63 < \<bar>rat_of_int S\<bar> / of_int N"
    proof -
      have "1 / 2 ^ 63 < 1 / rat_of_int N" using Nr Npos by (simp add: field_simps)
      also have "\<dots> \<le> \<bar>rat_of_int S\<bar> / of_int N"
        using S1 Npos by (intro divide_right_mono) simp_all
      finally show ?thesis .
    qed
    ultimately have lo: "1 / 2 ^ 63 < \<bar>\<mu>\<bar>" by simp
    have "rat_of_int \<bar>S\<bar> \<le> of_int (N * 2 ^ 31)" using Sb by (simp only: of_int_le_iff)
    then have "\<bar>rat_of_int S\<bar> \<le> of_int N * 2 ^ 31" by simp
    then have "\<bar>rat_of_int S\<bar> / of_int N \<le> 2 ^ 31"
      using Npos by (simp add: field_simps)
    then have hi: "\<bar>\<mu>\<bar> \<le> 2 ^ 31" using Npos by (simp add: \<mu>_def)
    have u3: "3 * u * \<bar>\<mu>\<bar> \<le> 1 / 2 * \<bar>\<mu>\<bar>"
      by (intro mult_right_mono) (simp_all add: u_def)
    have ql: "1 / 2 * \<bar>\<mu>\<bar> \<le> \<bar>S' / N'\<bar>" and qh: "\<bar>S' / N'\<bar> \<le> 2 * \<bar>\<mu>\<bar>"
      using q(2) u3 by linarith+
    have "(2::rat) powi (- 1022) \<le> 2 powi (- 64)"
      by (intro power_int_increasing) simp_all
    also have "\<dots> = 1 / 2 * (1 / 2 ^ 63)" by simp
    also have "\<dots> \<le> \<bar>S' / N'\<bar>" using lo ql by linarith
    finally have n1: "2 powi (- 1022) \<le> \<bar>S' / N'\<bar>" .
    have "\<bar>S' / N'\<bar> \<le> 2 * 2 ^ 31" using qh hi by linarith
    also have "\<dots> < (2::rat) ^ 1023" by simp
    finally have n2: "\<bar>S' / N'\<bar> < 2 ^ 1023" .
    from to_f64_normal [OF n1 n2] obtain m where
      m: "to_f64 (S' / N') = Finite m" "\<bar>m - S' / N'\<bar> \<le> \<bar>S' / N'\<bar> / 2 ^ 53"
      by blast
    have "\<bar>S' / N'\<bar> / 2 ^ 53 \<le> 2 * \<bar>\<mu>\<bar> / 2 ^ 53"
      using qh by (intro divide_right_mono) simp_all
    with m(2) have "\<bar>m - S' / N'\<bar> \<le> 2 * u * \<bar>\<mu>\<bar>" by (simp add: u_def)
    with q(2) have "\<bar>m - \<mu>\<bar> \<le> 5 * u * \<bar>\<mu>\<bar>" by linarith
    also have "\<dots> \<le> 5 * u * 2 ^ 31"
      using hi by (intro mult_left_mono) (simp_all add: u_def)
    also have "\<dots> \<le> 1 / 2 ^ 19" by (simp add: u_def)
    finally show ?thesis unfolding goal mean using m(1) by blast
  qed
qed

lemma format_1f_finite:
  "\<exists>neg n d. format_1f (Finite m) = (if neg then ''-'' else []) @ dec n @ ''.'' @ [digit_char d] \<and>
     d < 10 \<and> \<bar>(if neg then - 1 else 1) * (of_nat n + of_nat d / 10) - m\<bar> \<le> 1 / 20"
proof -
  define t where "t = nat (round_half_even (\<bar>m\<bar> * 10))"
  have "0 \<le> round_half_even (\<bar>m\<bar> * 10)" by (intro round_half_even_nonneg) simp
  then have t: "rat_of_nat t = of_int (round_half_even (\<bar>m\<bar> * 10))"
    by (simp add: t_def)
  have "\<bar>rat_of_nat t - \<bar>m\<bar> * 10\<bar> \<le> 1 / 2"
    unfolding t by (rule round_half_even_error)
  then have err: "\<bar>rat_of_nat t / 10 - \<bar>m\<bar>\<bar> \<le> 1 / 20" by linarith
  have "rat_of_nat t = of_nat (t div 10 * 10 + t mod 10)" by simp
  also have "\<dots> = of_nat (t div 10) * 10 + of_nat (t mod 10)"
    by (simp only: of_nat_add of_nat_mult of_nat_numeral)
  finally have split: "rat_of_nat t / 10 = of_nat (t div 10) + of_nat (t mod 10) / 10"
    by simp
  have fmt: "format_1f (Finite m) =
      (if m < 0 then ''-'' else []) @ dec (t div 10) @ ''.'' @ [digit_char (t mod 10)]"
    by (simp add: format_1f_def t_def Let_def)
  define v :: rat where "v = of_nat (t div 10) + of_nat (t mod 10) / 10"
  have errv: "\<bar>v - \<bar>m\<bar>\<bar> \<le> 1 / 20" using err by (simp only: split v_def)
  have "\<bar>(if m < 0 then - 1 else 1) * v - m\<bar> \<le> 1 / 20"
  proof (cases "m < 0")
    case True
    have "\<bar>- 1 * v - m\<bar> = \<bar>- (v - - m)\<bar>" by simp
    also have "\<dots> = \<bar>v - - m\<bar>" by (simp only: abs_minus)
    also have "\<dots> \<le> 1 / 20" using errv True by simp
    finally show ?thesis using True by (simp only: if_True)
  next
    case False
    then show ?thesis using errv by simp
  qed
  then have "\<bar>(if m < 0 then - 1 else 1) * (of_nat (t div 10) + of_nat (t mod 10) / 10) - m\<bar> \<le> 1 / 20"
    by (simp only: v_def)
  with fmt show ?thesis
    by (intro exI [of _ "m < 0"] exI [of _ "t div 10"] exI [of _ "t mod 10"]) simp
qed

lemma digit_char_props:
  assumes "d < 10"
  shows "digit_char d \<in> digit_chars" and "digit_of (digit_char d) = int d"
proof -
  from assms have "d = 0 \<or> d = 1 \<or> d = 2 \<or> d = 3 \<or> d = 4 \<or> d = 5 \<or> d = 6
    \<or> d = 7 \<or> d = 8 \<or> d = 9"
    by arith
  then have "digit_char d \<in> digit_chars \<and> digit_of (digit_char d) = int d"
    by (elim disjE) (simp_all add: digit_char_def digit_chars_def digit_of_def)
  then show "digit_char d \<in> digit_chars" and "digit_of (digit_char d) = int d"
    by simp_all
qed

lemma digits_value_snoc: "digits_value (ds @ [c]) = 10 * digits_value ds + digit_of c"
  by (simp add: digits_value_def)

lemma dec_props: "dec n \<noteq> [] \<and> set (dec n) \<subseteq> digit_chars \<and> digits_value (dec n) = int n"
proof (induction n rule: dec.induct)
  case (1 n)
  show ?case
  proof (cases "n < 10")
    case True
    then have "dec n = [digit_char n]" by (simp add: dec.simps)
    with True show ?thesis
      by (simp add: digit_char_props digits_value_def)
  next
    case False
    then have d: "dec n = dec (n div 10) @ [digit_char (n mod 10)]"
      by (subst dec.simps) simp
    have m: "n mod 10 < 10" by simp
    have "int n = 10 * int (n div 10) + int (n mod 10)"
      by (simp add: zdiv_int zmod_int)
    with "1.IH" [OF False] show ?thesis
      unfolding d by (simp add: digits_value_snoc digit_char_props [OF m])
  qed
qed

lemma format_1f_shows_mean:
  assumes "\<bar>m - of_int (sum_list xs) / of_nat (length xs)\<bar> \<le> 1 / 2 ^ 19"
  shows "shows_mean (format_1f (Finite m)) xs"
proof -
  from format_1f_finite [of m] obtain neg n d where
    f: "format_1f (Finite m) = (if neg then ''-'' else []) @ dec n @ ''.'' @ [digit_char d]"
    and d: "d < 10"
    and e: "\<bar>(if neg then - 1 else 1) * (of_nat n + of_nat d / 10) - m\<bar> \<le> 1 / 20"
    by blast
  have "\<bar>(if neg then - 1 else 1) * (rat_of_nat n + of_nat d / 10)
       - of_int (sum_list xs) / of_nat (length xs)\<bar> \<le> 1 / 20 + 1 / 2 ^ 19"
    using e assms by linarith
  then have "\<bar>(if neg then - 1 else 1) *
       (rat_of_int (digits_value (dec n)) + of_int (digit_of (digit_char d)) / 10)
       - of_int (sum_list xs) / of_nat (length xs)\<bar> \<le> 1 / 20 + 1 / 2 ^ 19"
    by (simp only: dec_props digit_char_props(2) [OF d] of_int_of_nat_eq)
  with f dec_props [of n] digit_char_props(1) [OF d] show ?thesis
    unfolding shows_mean_def by blast
qed

lemma column_mean_shown:
  assumes "elems data \<noteq> []" and "length (elems data) < 2 ^ 63"
  shows "shows_mean (format_1f (np_mean (column f data))) (map sint (column f data))"
proof -
  have ne: "column f data \<noteq> []" and len: "length (column f data) < 2 ^ 63"
    using assms by (simp_all add: column_def)
  from np_mean_close [OF ne len] obtain m where
    m: "np_mean (column f data) = Finite m"
    "\<bar>m - of_int (sum_list (map sint (column f data))) / of_nat (length (column f data))\<bar>
       \<le> 1 / 2 ^ 19"
    by blast
  from m(2) have "\<bar>m - of_int (sum_list (map sint (column f data)))
      / of_nat (length (map sint (column f data)))\<bar> \<le> 1 / 2 ^ 19"
    by simp
  from format_1f_shows_mean [OF this] show ?thesis by (simp only: m(1))
qed

lemma floor_rat_numeral: "\<lfloor>(numeral a :: rat) / numeral b\<rfloor> = numeral a div numeral b"
  using floor_divide_of_int_eq [of "numeral a" "numeral b", where ?'a = rat] by simp

lemma floor_rat_neg_numeral: "\<lfloor>- ((numeral a :: rat) / numeral b)\<rfloor> = - numeral a div numeral b"
  using floor_divide_of_int_eq [of "- numeral a" "numeral b", where ?'a = rat] by simp

lemmas eval_float = ilog2_def round_binary_def round_half_even_def to_f64_def to_f32_def overflow_def
  bitlen_def compute_floorlog ceiling_def Let_def floor_rat_numeral floor_rat_neg_numeral

section \<open>The statistics\<close>

text \<open>
  Claim C4. For every non-empty dataset (of fewer than \<open>2 ^ 63\<close> rows, the largest
  size an array can have), \<open>calculate_statistics\<close> returns exactly the three entries
  \<open>avg_heart_rate\<close>, \<open>avg_systolic_bp\<close> and \<open>avg_glucose\<close>, and each is the
  arithmetic mean of its column written with exactly one digit after the decimal point,
  whatever the magnitude of the values: a sign, digits, a point, one digit, denoting a
  number within the rounding error of the exact mean. Heart rates 95 and 80 give the
  string \<open>87.5\<close>.
\<close>

theorem calculate_statistics_means_one_decimal:
  "(elems data \<noteq> [] \<and> length (elems data) < 2 ^ 63 \<longrightarrow>
     (\<exists>a b c. calculate_statistics data =
          [''avg_heart_rate'' \<mapsto> a, ''avg_systolic_bp'' \<mapsto> b, ''avg_glucose'' \<mapsto> c] \<and>
        shows_mean a (map sint (column heart_rate data)) \<and>
        shows_mean b (map sint (column blood_pressure_systolic data)) \<and>
        shows_mean c (map sint (column glucose_level data)))) \<and>
   calculate_statistics (Arr1 [example_row 95 120 100, example_row 80 140 100]) ''avg_heart_rate''
     = Some ''87.5''"
proof (intro conjI impI)
  assume "elems data \<noteq> [] \<and> length (elems data) < 2 ^ 63"
  then have a: "elems data \<noteq> []" "length (elems data) < 2 ^ 63" by simp_all
  show "\<exists>a b c. calculate_statistics data =
          [''avg_heart_rate'' \<mapsto> a, ''avg_systolic_bp'' \<mapsto> b, ''avg_glucose'' \<mapsto> c] \<and>
        shows_mean a (map sint (column heart_rate data)) \<and>
        shows_mean b (map sint (column blood_pressure_systolic data)) \<and>
        shows_mean c (map sint (column glucose_level data))"
  proof -
    have "calculate_statistics data =
        [''avg_heart_rate'' \<mapsto> format_1f (np_mean (column heart_rate data)),
         ''avg_systolic_bp'' \<mapsto> format_1f (np_mean (column blood_pressure_systolic data)),
         ''avg_glucose'' \<mapsto> format_1f (np_mean (column glucose_level data))]"
      by (simp add: calculate_statistics_def Let_def)
    with column_mean_shown [OF a, of heart_rate]
      column_mean_shown [OF a, of blood_pressure_systolic]
      column_mean_shown [OF a, of glucose_level]
    show ?thesis by blast
  qed
next
  show "calculate_statistics (Arr1 [example_row 95 120 100, example_row 80 140 100])
      ''avg_heart_rate'' = Some ''87.5''"
    by (simp add: calculate_statistics_def column_def np_mean_def example_row_def eval_float
        format_1f_def dec.simps digit_char_def)
qed

theorem calculate_statistics_means_one_decimal_witness:
  "elems (Arr1 [example_row 95 120 100, example_row 80 140 100]) \<noteq> [] \<and>
   length (elems (Arr1 [example_row 95 120 100, example_row 80 140 100])) < 2 ^ 63 \<and>
   (\<exists>a b c. calculate_statistics (Arr1 [example_row 95 120 100, example_row 80 140 100]) =
          [''avg_heart_rate'' \<mapsto> a, ''avg_systolic_bp'' \<mapsto> b, ''avg_glucose'' \<mapsto> c] \<and>
      shows_mean a (map sint (column heart_rate (Arr1 [example_row 95 120 100, example_row 80 140 100]))) \<and>
      shows_mean b (map sint (column blood_pressure_systolic
                      (Arr1 [example_row 95 120 100, example_row 80 140 100]))) \<and>
      shows_mean c (map sint (column glucose_level (Arr1 [example_row 95 120 100, example_row 80 140 100]))))"
proof -
  have h: "elems (Arr1 [example_row 95 120 100, example_row 80 140 100]) \<noteq> [] \<and>
      length (elems (Arr1 [example_row 95 120 100, example_row 80 140 100])) < 2 ^ 63"
    by simp
  with calculate_statistics_means_one_decimal
    [of "Arr1 [example_row 95 120 100, example_row 80 140 100]"]
  show ?thesis by blast
qed


text \<open>
  Claim C9. On the empty dataset \<open>calculate_statistics\<close> raises nothing: it returns
  the mapping whose three values are the string \<open>nan\<close>, the mean of an empty column
  being not-a-number, which the one-decimal format spells out without any digit.
\<close>

theorem calculate_statistics_empty_is_nan:
  "calculate_statistics (Arr1 []) =
     [''avg_heart_rate'' \<mapsto> ''nan'', ''avg_systolic_bp'' \<mapsto> ''nan'', ''avg_glucose'' \<mapsto> ''nan'']"
  by (simp add: calculate_statistics_def column_def np_mean_def to_f64_zero format_1f_def)

section \<open>Properties of the writer\<close>

lemma path_split_no_sep:
  assumes "CHR ''/'' \<notin> set p"
  shows "path_split p = ([], p)"
proof -
  have a: "\<forall>c \<in> set (rev p). c \<noteq> CHR ''/''" using assms by auto
  have "takeWhile (\<lambda>c. c \<noteq> CHR ''/'') (rev p) = rev p"
    using a by (simp add: takeWhile_eq_all_conv)
  moreover have "dropWhile (\<lambda>c. c \<noteq> CHR ''/'') (rev p) = []"
    using a by (simp add: dropWhile_eq_Nil_conv)
  ultimately show ?thesis by (simp only: path_split_def Let_def) simp
qed

lemma makedirs_empty: "makedirs fs [] = (Inl FileNotFoundError, fs)"
proof -
  have "split_twice [] = ([], [])"
    by (simp add: split_twice_def path_split_def rstrip_sep_def)
  then show ?thesis
    by (subst makedirs.simps) (simp add: mkdir_exist_ok_def mkdir_def isdir_def stat_def)
qed

text \<open>
  Claim C10. For every destination path without a directory component, that is a bare
  file name with no slash in it, \<open>save_report\<close> fails with an error before it writes
  anything: the directory name computed from the path is empty, and creating the
  directory of the empty name fails. The file system is left as it was. Therefore
  \<open>save_report\<close> returns normally only for a path with a directory component.
\<close>

theorem save_report_bare_filename_fails:
  "(CHR ''/'' \<notin> set filename \<longrightarrow>
      save_report report filename fs = (Inl FileNotFoundError, fs)) \<and>
   (fst (save_report report filename fs) = Inr () \<longrightarrow> CHR ''/'' \<in> set filename)"
proof -
  have a: "save_report report filename fs = (Inl FileNotFoundError, fs)"
    if "CHR ''/'' \<notin> set filename"
    using that by (simp add: save_report_def dirname_def path_split_no_sep makedirs_empty)
  have b: "CHR ''/'' \<in> set filename" if "fst (save_report report filename fs) = Inr ()"
  proof (rule ccontr)
    assume "CHR ''/'' \<notin> set filename"
    from a [OF this] that show False by simp
  qed
  from a b show ?thesis by blast
qed

theorem save_report_bare_filename_fails_witness:
  "CHR ''/'' \<notin> set ''report.txt'' \<and>
   save_report ''Total readings: 2'' ''report.txt'' Map.empty = (Inl FileNotFoundError, Map.empty) \<and>
   fst (save_report ''r'' ''output/analysis_report.txt'' Map.empty) = Inr () \<and>
   CHR ''/'' \<in> set ''output/analysis_report.txt''"
proof -
  have h: "CHR ''/'' \<notin> set ''report.txt''" by simp
  have s: "fst (save_report ''r'' ''output/analysis_report.txt'' Map.empty) = Inr ()"
    by code_simp
  from save_report_bare_filename_fails [of "''report.txt''" "''Total readings: 2''" Map.empty] h
  have "save_report ''Total readings: 2'' ''report.txt'' Map.empty = (Inl FileNotFoundError, Map.empty)"
    by blast
  moreover from save_report_bare_filename_fails [of "''output/analysis_report.txt''" "''r''" Map.empty] s
  have "CHR ''/'' \<in> set ''output/analysis_report.txt''"
    by blast
  ultimately show ?thesis using h s by blast
qed

text \<open>
  Claim C7. The claim says that for every report and destination path \<open>save_report\<close>
  creates the missing parent directories and writes the report. At the bare file name
  \<open>report.txt\<close>, in an empty working directory, the code raises
  \<^verbatim>\<open>FileNotFoundError\<close> instead and writes no file.
\<close>

theorem save_report_bare_filename_example:
  "save_report ''Health Sensor Data Analysis Report'' ''report.txt'' Map.empty =
     (Inl FileNotFoundError, Map.empty)"
  by (simp add: save_report_def dirname_def path_split_def rstrip_sep_def makedirs_empty)

section \<open>Properties of the loader\<close>

lemma sequenceE_Inr_iff: "sequenceE ms = Inr xs \<longleftrightarrow> ms = map Inr xs"
proof (induction ms arbitrary: xs)
  case Nil
  show ?case by auto
next
  case (Cons m ms)
  show ?case
  proof (cases m)
    case (Inl e)
    then show ?thesis by (cases xs) auto
  next
    case (Inr x)
    show ?thesis
    proof (cases "sequenceE ms")
      case (Inl e)
      with Cons.IH have "\<And>ys. ms \<noteq> map Inr ys" by auto
      with Inl Inr show ?thesis by (cases xs) auto
    next
      case r: (Inr ys)
      with Cons.IH [of ys] have ms: "ms = map Inr ys" by simp
      show ?thesis using Inr r ms by (cases xs) (auto simp: inj_map_eq_map)
    qed
  qed
qed

lemma load_data_rows:
  assumes "read_text fs filename = Inr txt"
  shows "load_data fs filename =
     (if filter (\<lambda>v. length v \<noteq> (case data_rows txt of [] \<Rightarrow> 0 | r # rs \<Rightarrow> length r))
           (data_rows txt) \<noteq> []
      then Inl ValueError
      else bindE (sequenceE (map (convert_row (map snd dtype)) (data_rows txt))) (\<lambda>tuples.
           bindE (sequenceE (map np_record tuples)) (\<lambda>output. Inr (squeeze output))))"
  using assms by (simp add: load_data_def genfromtxt_def data_rows_def Let_def)







lemma elems_squeeze: "elems (squeeze rs) = rs"
  by (cases rs rule: squeeze.cases) simp_all

lemma loaded_rows:
  assumes "read_text fs filename = Inr txt" and "load_data fs filename = Inr data"
  shows "\<exists>tuples. map (convert_row (map snd dtype)) (data_rows txt) = map Inr tuples \<and>
                   map np_record tuples = map Inr (elems data)"
proof -
  from assms have b: "bindE (sequenceE (map (convert_row (map snd dtype)) (data_rows txt)))
      (\<lambda>tuples. bindE (sequenceE (map np_record tuples)) (\<lambda>output. Inr (squeeze output)))
      = Inr data"
    by (simp add: load_data_rows split: if_splits)
  then obtain tuples where t: "sequenceE (map (convert_row (map snd dtype)) (data_rows txt)) = Inr tuples"
    and b2: "bindE (sequenceE (map np_record tuples)) (\<lambda>output. Inr (squeeze output)) = Inr data"
    by (auto simp: bindE_def split: sum.splits)
  from b2 obtain out where o: "sequenceE (map np_record tuples) = Inr out"
    and d: "data = squeeze out"
    by (auto simp: bindE_def split: sum.splits)
  from t o d show ?thesis
    by (auto simp: sequenceE_Inr_iff elems_squeeze)
qed

lemma loaded_row:
  assumes "read_text fs filename = Inr txt" and "load_data fs filename = Inr data"
  shows "length (elems data) = length (data_rows txt)"
    and "i < length (data_rows txt) \<Longrightarrow>
           \<exists>cells. convert_row (map snd dtype) (data_rows txt ! i) = Inr cells \<and>
                   np_record cells = Inr (elems data ! i)"
proof -
  from loaded_rows [OF assms] obtain tuples where
    t: "map (convert_row (map snd dtype)) (data_rows txt) = map Inr tuples"
    and o: "map np_record tuples = map Inr (elems data)"
    by blast
  from t have lt: "length (data_rows txt) = length tuples"
    by (metis length_map)
  from o have lo: "length tuples = length (elems data)"
    by (metis length_map)
  from lt lo show "length (elems data) = length (data_rows txt)" by simp
  show "\<exists>cells. convert_row (map snd dtype) (data_rows txt ! i) = Inr cells \<and>
                   np_record cells = Inr (elems data ! i)" if "i < length (data_rows txt)"
  proof -
    from that lt lo have i: "i < length tuples" "i < length (elems data)" by simp_all
    have "map (convert_row (map snd dtype)) (data_rows txt) ! i = map Inr tuples ! i"
      by (simp only: t)
    then have c: "convert_row (map snd dtype) (data_rows txt ! i) = Inr (tuples ! i)"
      using that i by simp
    have "map np_record tuples ! i = map Inr (elems data) ! i" by (simp only: o)
    then have "np_record (tuples ! i) = Inr (elems data ! i)" using i by simp
    with c show ?thesis by blast
  qed
qed





section \<open>Properties of the pipeline\<close>

lemma main_computed_report:
  "main fs = (case computed_report fs of
                Inl e \<Rightarrow> (Inl e, fs)
              | Inr report \<Rightarrow> save_report report ''output/analysis_report.txt'' fs)"
  by (simp add: main_def computed_report_def Let_def bindE_def split: sum.splits)

lemma stat_plain:
  assumes "p \<noteq> []" and "last p \<noteq> CHR ''/''"
  shows "stat fs p = fs p"
proof -
  have "rstrip_sep p = p"
    using assms by (cases p rule: rev_cases) (simp_all add: rstrip_sep_def)
  with assms(1) show ?thesis
    by (simp add: stat_def split: option.splits node.splits)
qed

lemma read_text_frame:
  assumes "fs' ''health_data.csv'' = fs ''health_data.csv''"
  shows "read_text fs' ''health_data.csv'' = read_text fs ''health_data.csv''"
  using assms by (simp add: read_text_def stat_plain)

lemma computed_report_frame:
  assumes "fs' ''health_data.csv'' = fs ''health_data.csv''"
  shows "computed_report fs' = computed_report fs"
  using read_text_frame [of fs' fs] assms
  by (simp add: computed_report_def load_data_def genfromtxt_def)




text \<open>What \<open>save_report\<close> does at the destination of the pipeline.\<close>

lemma makedirs_output:
  "makedirs fs ''output'' =
     (case fs ''output'' of
        None \<Rightarrow> (Inr (), fs(''output'' \<mapsto> Dir))
      | Some Dir \<Rightarrow> (Inr (), fs)
      | Some (File c) \<Rightarrow> (Inl FileExistsError, fs))"
proof -
  have s: "split_twice ''output'' = ([], ''output'')"
    by (simp add: split_twice_def path_split_def rstrip_sep_def)
  have r: "rstrip_sep ''output'' = ''output''" by (simp add: rstrip_sep_def)
  have a: "parent_error fs ''output'' = None"
    by (simp add: parent_error_def ancestors_def r)
  show ?thesis
    by (subst makedirs.simps)
      (simp add: s mkdir_exist_ok_def mkdir_def isdir_def stat_def r a
        split: option.splits node.splits)
qed

lemma write_text_report:
  assumes "fs ''output'' = Some Dir"
  shows "write_text fs ''output/analysis_report.txt'' txt =
     (case fs ''output/analysis_report.txt'' of
        Some Dir \<Rightarrow> Inl IsADirectoryError
      | _ \<Rightarrow> Inr (fs(''output/analysis_report.txt'' \<mapsto> File txt)))"
proof -
  have r: "rstrip_sep ''output/analysis_report.txt'' = ''output/analysis_report.txt''"
    "rstrip_sep ''output'' = ''output''"
    by (simp_all add: rstrip_sep_def)
  have a: "parent_error fs ''output/analysis_report.txt'' = None"
    using assms by (simp add: parent_error_def ancestors_def r)
  show ?thesis
    by (simp add: write_text_def r a split: option.splits node.splits)
qed

lemma dirname_report: "dirname ''output/analysis_report.txt'' = ''output''"
  by (simp add: dirname_def path_split_def rstrip_sep_def)

lemma save_report_output:
  "save_report report ''output/analysis_report.txt'' fs =
     (case fs ''output'' of
        Some (File c) \<Rightarrow> (Inl FileExistsError, fs)
      | _ \<Rightarrow>
         (let fs1 = (if fs ''output'' = None then fs(''output'' \<mapsto> Dir) else fs)
          in case fs1 ''output/analysis_report.txt'' of
               Some Dir \<Rightarrow> (Inl IsADirectoryError, fs1)
             | _ \<Rightarrow> (Inr (), fs1(''output/analysis_report.txt'' \<mapsto> File report))))"
proof (cases "fs ''output''")
  case None
  then show ?thesis
    by (simp add: save_report_def dirname_report makedirs_output write_text_report
        split: option.splits node.splits)
next
  case (Some n)
  then show ?thesis
    by (cases n)
      (simp_all add: save_report_def dirname_report makedirs_output write_text_report
        split: option.splits node.splits)
qed


lemma computed_report_after:
  "computed_report (fs(''output'' \<mapsto> x)) = computed_report fs"
  "computed_report (fs(''output/analysis_report.txt'' \<mapsto> y)) = computed_report fs"
  "computed_report (fs(''output'' \<mapsto> x, ''output/analysis_report.txt'' \<mapsto> y)) = computed_report fs"
  by (rule computed_report_frame, simp)+

lemma main_success:
  assumes "main fs = (Inr (), fs')"
  shows "\<exists>report. computed_report fs = Inr report \<and>
           fs' ''output/analysis_report.txt'' = Some (File report)"
  using assms unfolding main_computed_report save_report_output
  by (auto simp: Let_def split: sum.splits option.splits node.splits if_splits)

lemma main_rerun:
  assumes "main fs = (r, fs')"
  shows "main fs' = (r, fs')"
proof (cases "computed_report fs")
  case (Inl e)
  with assms have "fs' = fs" by (simp add: main_computed_report)
  with assms show ?thesis by simp
next
  case (Inr report)
  with assms have s: "save_report report ''output/analysis_report.txt'' fs = (r, fs')"
    by (simp add: main_computed_report)
  show ?thesis
  proof (cases "fs ''output''")
    case None
    show ?thesis
    proof (cases "fs ''output/analysis_report.txt'' = Some Dir")
      case True
      with s None have e: "r = Inl IsADirectoryError" "fs' = fs(''output'' \<mapsto> Dir)"
        by (simp_all add: save_report_output Let_def)
      show ?thesis
        unfolding main_computed_report e
        by (simp add: computed_report_after Inr save_report_output True)
    next
      case False
      with s None have e: "r = Inr ()"
        "fs' = fs(''output'' \<mapsto> Dir, ''output/analysis_report.txt'' \<mapsto> File report)"
        by (auto simp: save_report_output Let_def split: option.splits node.splits)
      show ?thesis
        unfolding main_computed_report e
        by (simp add: computed_report_after Inr save_report_output)
    qed
  next
    case (Some n)
    show ?thesis
    proof (cases n)
      case Dir
      show ?thesis
      proof (cases "fs ''output/analysis_report.txt'' = Some Dir")
        case True
        with s Some Dir have e: "r = Inl IsADirectoryError" "fs' = fs"
          by (simp_all add: save_report_output Let_def)
        with assms show ?thesis by simp
      next
        case False
        with s Some Dir have e: "r = Inr ()"
          "fs' = fs(''output/analysis_report.txt'' \<mapsto> File report)"
          by (auto simp: save_report_output Let_def split: option.splits node.splits)
        show ?thesis
          unfolding main_computed_report e
          by (simp add: computed_report_after Inr save_report_output Some Dir)
      qed
    next
      case (File c)
      with s Some have "fs' = fs" by (simp add: save_report_output)
      with assms show ?thesis by simp
    qed
  qed
qed

text \<open>
  Claim C8. The pipeline is deterministic. Running it again on the file system that a
  run has left gives the same outcome and leaves every file as it is, byte for byte;
  and two runs that succeed on file systems with the same input file write the same
  report.
\<close>

theorem pipeline_deterministic:
  "(main fs = (r, fs') \<longrightarrow> main fs' = (r, fs')) \<and>
   (fs1 ''health_data.csv'' = fs2 ''health_data.csv'' \<and>
    main fs1 = (Inr (), fs1') \<and> main fs2 = (Inr (), fs2') \<longrightarrow>
      fs1' ''output/analysis_report.txt'' = fs2' ''output/analysis_report.txt'')"
proof (intro conjI impI)
  assume "main fs = (r, fs')"
  then show "main fs' = (r, fs')" by (rule main_rerun)
next
  assume a: "fs1 ''health_data.csv'' = fs2 ''health_data.csv'' \<and>
    main fs1 = (Inr (), fs1') \<and> main fs2 = (Inr (), fs2')"
  then have "computed_report fs1 = computed_report fs2"
    by (intro computed_report_frame) simp
  with a main_success [of fs1 fs1'] main_success [of fs2 fs2']
  show "fs1' ''output/analysis_report.txt'' = fs2' ''output/analysis_report.txt''"
    by auto
qed

theorem pipeline_deterministic_witness:
  "main two_rows_fs = (Inr (), two_rows_done) \<and>
   main two_rows_done = (Inr (), two_rows_done) \<and>
   two_rows_fs ''health_data.csv'' = two_rows_done ''health_data.csv'' \<and>
   two_rows_done ''output/analysis_report.txt'' = Some (File two_rows_report)"
proof -
  have cr: "computed_report two_rows_fs = Inr two_rows_report"
    by code_simp
  have "main two_rows_fs = save_report two_rows_report ''output/analysis_report.txt'' two_rows_fs"
    by (simp add: main_computed_report cr)
  also have "\<dots> = (Inr (), two_rows_done)"
    by (simp add: save_report_output two_rows_fs_def two_rows_done_def)
  finally have m1: "main two_rows_fs = (Inr (), two_rows_done)" .
  have i: "two_rows_fs ''health_data.csv'' = two_rows_done ''health_data.csv''"
    by (simp add: two_rows_done_def)
  from pipeline_deterministic [of two_rows_fs "Inr ()" two_rows_done] m1
  have m2: "main two_rows_done = (Inr (), two_rows_done)" by blast
  from pipeline_deterministic [of _ _ _ two_rows_fs two_rows_done two_rows_done two_rows_done] i m1 m2
  have "two_rows_done ''output/analysis_report.txt'' = two_rows_done ''output/analysis_report.txt''"
    by blast
  moreover have "two_rows_done ''output/analysis_report.txt'' = Some (File two_rows_report)"
    by (simp add: two_rows_done_def)
  ultimately show ?thesis using m1 m2 i by blast
qed

text \<open>
  When the input has any number of data rows other than one, the report is the template
  filled with the aggregates and with that number as the total.
\<close>

lemma np_len_squeeze:
  "np_len (squeeze rs) = (if length rs = 1 then Inl TypeError else Inr (int (length rs)))"
  by (cases rs rule: squeeze.cases) simp_all

lemma load_data_squeezed:
  assumes "read_text fs filename = Inr txt" and "load_data fs filename = Inr data"
  shows "data = squeeze (elems data)"
proof -
  from assms obtain tuples out where "sequenceE (map np_record tuples) = Inr out"
    and d: "data = squeeze out"
    by (auto simp: load_data_rows bindE_def split: if_splits sum.splits)
  then show ?thesis by (simp add: elems_squeeze)
qed

lemma main_reports_row_count:
  assumes rt: "read_text fs ''health_data.csv'' = Inr txt"
    and ld: "load_data fs ''health_data.csv'' = Inr data"
    and n: "length (data_rows txt) \<noteq> 1"
  shows "computed_report fs =
     Inr (fill_template
            (report_values (calculate_statistics data) (find_abnormal_readings data)
               (int (length (data_rows txt))))
            report_template)"
proof -
  have len: "length (elems data) = length (data_rows txt)"
    using loaded_row(1) [OF rt ld] .
  have "np_len data = np_len (squeeze (elems data))"
    using load_data_squeezed [OF rt ld] by simp
  with len n have nl: "np_len data = Inr (int (length (data_rows txt)))"
    by (simp add: np_len_squeeze)
  have s: "{''avg_heart_rate'', ''avg_systolic_bp'', ''avg_glucose''}
      \<subseteq> dom (calculate_statistics data)"
    by (simp add: calculate_statistics_def Let_def)
  have a: "{''high_heart_rate'', ''high_blood_pressure'', ''high_glucose''}
      \<subseteq> dom (find_abnormal_readings data)"
    by (simp add: find_abnormal_readings_def Let_def)
  show ?thesis
    by (simp add: computed_report_def ld nl generate_report_filled [OF s a])
qed

text \<open>
  Claim C2. The claim says that for a header followed by \<open>N\<close> valid data rows the
  report states \<open>N\<close> total readings. For \<open>N = 1\<close> the loaded array is
  zero-dimensional, \<^verbatim>\<open>len(data)\<close> raises \<^verbatim>\<open>TypeError\<close>, and the run ends without
  any report.
\<close>

theorem main_single_row_type_error:
  "main single_row_fs = (Inl TypeError, single_row_fs)"
proof -
  have "load_data single_row_fs ''health_data.csv'' = Inr (Arr0 (example_row 95 120 100))"
    by code_simp
  then show ?thesis by (simp add: main_def)
qed

end
